theory Spec2Isabelle
  imports Complex_Main
begin

section \<open>Values and control flow of the Python program\<close>

text \<open>
  The program \<^verbatim>\<open>black_hole.py\<close> computes with Python floats; here they are read as
  real numbers, with \<open>np.sin\<close>, \<open>np.cos\<close> and \<open>np.pi\<close> as \<open>sin\<close>, \<open>cos\<close> and \<open>pi\<close>.
  Rounding is therefore not part of that model: an equation proved in it is an equation
  of the exact values the floating-point program approximates.  The rotation state,
  where a claim turns on the rounding, is modelled a second time in double arithmetic
  (the \<open>f64\<close> definitions).  Python's integers (loop counters, band and segment counts,
  vertex indices, pixel positions) are \<open>int\<close>.
\<close>

datatype py_exception = ZeroDivisionError | OverflowError | SystemExit

type_synonym vec3 = "real \<times> real \<times> real"

text \<open>\<open>range(n)\<close>: the integers \<open>0, \<dots>, n - 1\<close>, empty when \<open>n \<le> 0\<close>.\<close>

definition range_py :: "int \<Rightarrow> int list" where
  "range_py n = map int [0..<nat n]"

text \<open>\<open>a / b\<close> with a float on the left and an integer on the right: raises on \<open>b = 0\<close>.\<close>

definition truediv :: "real \<Rightarrow> int \<Rightarrow> py_exception + real" where
  "truediv a b = (if b = 0 then Inl ZeroDivisionError else Inr (a / real_of_int b))"

text \<open>A \<open>for\<close> loop whose body updates the state \<open>s\<close> or raises; a raise ends the loop.\<close>

fun for_each :: "('i \<Rightarrow> 's \<Rightarrow> py_exception + 's) \<Rightarrow> 'i list \<Rightarrow> 's \<Rightarrow> py_exception + 's" where
  "for_each body [] s = Inr s"
| "for_each body (i # rest) s =
     (case body i s of Inl e \<Rightarrow> Inl e | Inr s' \<Rightarrow> for_each body rest s')"

section \<open>Configuration constants (lines 7--12)\<close>

definition radius :: real where "radius = 1.5"
definition lat_bands :: int where "lat_bands = 50"
definition long_bands :: int where "long_bands = 50"

record ring_config =
  cfg_radius :: real
  cfg_thickness :: real
  cfg_segments :: int

definition ring_params :: ring_config where
  "ring_params = \<lparr>cfg_radius = radius, cfg_thickness = 0.5, cfg_segments = 100\<rparr>"

definition additional_ring_params :: ring_config where
  "additional_ring_params = \<lparr>cfg_radius = 3.0, cfg_thickness = 0.2, cfg_segments = 100\<rparr>"

definition horizontal_ring_params :: ring_config where
  "horizontal_ring_params = \<lparr>cfg_radius = 2.2, cfg_thickness = 0.2, cfg_segments = 100\<rparr>"

definition star_size :: real where "star_size = 1"

section \<open>\<open>create_sphere\<close> (lines 15--32)\<close>

text \<open>
  The source reads the globals \<open>radius\<close>, \<open>lat_bands\<close> and \<open>long_bands\<close>; they are
  passed explicitly, so that the generator can be studied at every band count.
  The state of the two vertex loops is the pair \<open>(vertices, normals)\<close>.
\<close>

definition sphere_long_body ::
  "real \<Rightarrow> int \<Rightarrow> real \<Rightarrow> real \<Rightarrow> int \<Rightarrow> vec3 list \<times> vec3 list \<Rightarrow> py_exception + vec3 list \<times> vec3 list" where
  "sphere_long_body rad longs sin_theta cos_theta long = (\<lambda>(vertices, normals).
     case truediv (real_of_int long * 2 * pi) longs of
       Inl e \<Rightarrow> Inl e
     | Inr phi \<Rightarrow>
         let sin_phi = sin phi; cos_phi = cos phi;
             x = cos_phi * sin_theta; y = cos_theta; z = sin_phi * sin_theta
         in Inr (vertices @ [(rad * x, rad * y, rad * z)], normals @ [(x, y, z)]))"

definition sphere_lat_body ::
  "real \<Rightarrow> int \<Rightarrow> int \<Rightarrow> int \<Rightarrow> vec3 list \<times> vec3 list \<Rightarrow> py_exception + vec3 list \<times> vec3 list" where
  "sphere_lat_body rad lats longs lat = (\<lambda>st.
     case truediv (real_of_int lat * pi) lats of
       Inl e \<Rightarrow> Inl e
     | Inr theta \<Rightarrow>
         for_each (sphere_long_body rad longs (sin theta) (cos theta)) (range_py (longs + 1)) st)"

definition sphere_cell :: "int \<Rightarrow> int \<Rightarrow> int \<Rightarrow> int list" where
  "sphere_cell longs lat long =
     (let first = (lat * (longs + 1)) + long;
          second = (lat * (longs + 1)) + long + longs + 1
      in [first, second, first + 1, second, second + 1, first + 1])"

definition sphere_index_loop :: "int \<Rightarrow> int \<Rightarrow> int list" where
  "sphere_index_loop lats longs =
     concat (map (\<lambda>lat. concat (map (sphere_cell longs lat) (range_py longs))) (range_py lats))"

definition create_sphere :: "real \<Rightarrow> int \<Rightarrow> int \<Rightarrow> py_exception + vec3 list \<times> vec3 list \<times> int list" where
  "create_sphere rad lats longs =
     (case for_each (sphere_lat_body rad lats longs) (range_py (lats + 1)) ([], []) of
        Inl e \<Rightarrow> Inl e
      | Inr (vertices, normals) \<Rightarrow> Inr (vertices, normals, sphere_index_loop lats longs))"

section \<open>\<open>create_ring\<close> (lines 35--44)\<close>

definition ring_vertex_body ::
  "real \<Rightarrow> real \<Rightarrow> int \<Rightarrow> bool \<Rightarrow> int \<Rightarrow> vec3 list \<Rightarrow> py_exception + vec3 list" where
  "ring_vertex_body rad thickness segments horizontal i vertices =
     (case truediv (real_of_int i * 2 * pi) segments of
        Inl e \<Rightarrow> Inl e
      | Inr theta \<Rightarrow>
          (case (if horizontal then (rad * cos theta, rad * sin theta, 0)
                 else (rad * cos theta, 0, rad * sin theta)) of
             (x, y, z) \<Rightarrow>
               Inr (vertices @ [(x, y, z - thickness / 2), (x, y, z + thickness / 2)])))"

text \<open>
  The index loop runs over \<open>range(segments)\<close>, which is empty unless \<open>segments > 0\<close>, so
  \<open>(i + 1) % segments\<close> is never evaluated at a zero modulus.
\<close>

definition ring_quad :: "int \<Rightarrow> int \<Rightarrow> int list" where
  "ring_quad segments i =
     (let next_i = (i + 1) mod segments
      in [i * 2, next_i * 2, next_i * 2 + 1, i * 2, next_i * 2 + 1, i * 2 + 1])"

definition ring_index_loop :: "int \<Rightarrow> int list" where
  "ring_index_loop segments = concat (map (ring_quad segments) (range_py segments))"

definition create_ring :: "real \<Rightarrow> real \<Rightarrow> int \<Rightarrow> bool \<Rightarrow> py_exception + vec3 list \<times> int list" where
  "create_ring rad thickness segments horizontal =
     (case for_each (ring_vertex_body rad thickness segments horizontal) (range_py (segments + 1)) [] of
        Inl e \<Rightarrow> Inl e
      | Inr vertices \<Rightarrow> Inr (vertices, ring_index_loop segments))"

section \<open>Drawing (lines 47--79)\<close>

text \<open>
  The fixed-function pipeline is an external collaborator.  Of its state only what the
  program sets is kept: the lighting flag, the two client arrays with their pointers,
  the current colour and the line and point widths.  A draw call records what it is
  issued with: the flags and buffers in force at that moment.
\<close>

datatype primitive = GL_POINTS | GL_TRIANGLES

record submission =
  sub_primitive :: primitive
  sub_lit :: bool
  sub_colour :: vec3
  sub_width :: real
  sub_positions :: "vec3 list"
  sub_normals :: "vec3 list option"
  sub_elements :: "int list"

record gl_state =
  gl_lighting :: bool
  gl_vertex_array :: bool
  gl_normal_array :: bool
  gl_vertex_pointer :: "vec3 list"
  gl_normal_pointer :: "vec3 list"
  gl_color :: vec3
  gl_line_width :: real
  gl_point_size :: real
  submitted :: "submission list"

definition glDrawElements :: "int list \<Rightarrow> gl_state \<Rightarrow> gl_state" where
  "glDrawElements indices g =
     g\<lparr>submitted := submitted g @
        [\<lparr>sub_primitive = GL_TRIANGLES, sub_lit = gl_lighting g, sub_colour = gl_color g,
          sub_width = gl_line_width g,
          sub_positions = (if gl_vertex_array g then gl_vertex_pointer g else []),
          sub_normals = (if gl_normal_array g then Some (gl_normal_pointer g) else None),
          sub_elements = indices\<rparr>]\<rparr>"

definition draw_object :: "vec3 list \<Rightarrow> int list \<Rightarrow> vec3 \<Rightarrow> real \<Rightarrow> bool \<Rightarrow> gl_state \<Rightarrow> gl_state" where
  "draw_object vertices indices color line_width use_normal g =
     (let g = g\<lparr>gl_vertex_array := True\<rparr>;
          g = g\<lparr>gl_vertex_pointer := vertices\<rparr>;
          g = g\<lparr>gl_color := color\<rparr>;
          g = (if use_normal
               then g\<lparr>gl_normal_array := True, gl_normal_pointer := vertices, gl_lighting := False\<rparr>
               else g);
          g = (if line_width \<noteq> 0 then g\<lparr>gl_line_width := line_width\<rparr> else g);
          g = glDrawElements indices g;
          g = g\<lparr>gl_vertex_array := False\<rparr>
      in if use_normal then g\<lparr>gl_normal_array := False\<rparr> else g)"

text \<open>\<open>glBegin(GL_POINTS)\<close> \<dots> \<open>glEnd()\<close> with one \<open>glVertex3fv\<close> per star.\<close>

definition draw_stars :: "vec3 list \<Rightarrow> gl_state \<Rightarrow> gl_state" where
  "draw_stars stars g =
     (let g = g\<lparr>gl_lighting := False\<rparr>;
          g = g\<lparr>gl_color := (1.0, 1.0, 1.0)\<rparr>;
          g = g\<lparr>gl_point_size := star_size\<rparr>
      in g\<lparr>submitted := submitted g @
           [\<lparr>sub_primitive = GL_POINTS, sub_lit = gl_lighting g, sub_colour = gl_color g,
             sub_width = gl_point_size g, sub_positions = stars, sub_normals = None, sub_elements = []\<rparr>]\<rparr>)"

text \<open>
  The values OpenGL gives this state in a fresh context: lighting and both client
  arrays disabled, colour white, widths \<open>1\<close>, nothing drawn yet.
\<close>

definition initial_gl_state :: gl_state where
  "initial_gl_state =
     \<lparr>gl_lighting = False, gl_vertex_array = False, gl_normal_array = False,
      gl_vertex_pointer = [], gl_normal_pointer = [], gl_color = (1, 1, 1),
      gl_line_width = 1, gl_point_size = 1, submitted = []\<rparr>"

section \<open>\<open>main\<close> (lines 82--154)\<close>

subsection \<open>Geometry created at startup (lines 94--97)\<close>

record geometry =
  sphere_vertices :: "vec3 list"
  sphere_normals :: "vec3 list"
  sphere_indices :: "int list"
  ring_vertices :: "vec3 list"
  ring_indices :: "int list"
  additional_ring_vertices :: "vec3 list"
  additional_ring_indices :: "int list"
  horizontal_ring_vertices :: "vec3 list"
  horizontal_ring_indices :: "int list"

definition create_ring_from :: "ring_config \<Rightarrow> bool \<Rightarrow> py_exception + vec3 list \<times> int list" where
  "create_ring_from cfg horizontal =
     create_ring (cfg_radius cfg) (cfg_thickness cfg) (cfg_segments cfg) horizontal"

definition create_geometry :: "py_exception + geometry" where
  "create_geometry =
     (case create_sphere radius lat_bands long_bands of
        Inl e \<Rightarrow> Inl e
      | Inr (sv, sn, si) \<Rightarrow>
     (case create_ring_from ring_params False of
        Inl e \<Rightarrow> Inl e
      | Inr (rv, ri) \<Rightarrow>
     (case create_ring_from additional_ring_params False of
        Inl e \<Rightarrow> Inl e
      | Inr (av, ai) \<Rightarrow>
     (case create_ring_from horizontal_ring_params True of
        Inl e \<Rightarrow> Inl e
      | Inr (hv, hi) \<Rightarrow>
          Inr \<lparr>sphere_vertices = sv, sphere_normals = sn, sphere_indices = si,
               ring_vertices = rv, ring_indices = ri,
               additional_ring_vertices = av, additional_ring_indices = ai,
               horizontal_ring_vertices = hv, horizontal_ring_indices = hi\<rparr>))))"

subsection \<open>Rotation state and events (lines 101--126)\<close>

record camera =
  rot_x :: real
  rot_y :: real
  rot_x_velocity :: real
  rot_y_velocity :: real
  mouse_down :: bool
  last_mouse_pos :: "int \<times> int"

definition initial_camera :: camera where
  "initial_camera = \<lparr>rot_x = 0, rot_y = 0, rot_x_velocity = 0, rot_y_velocity = 0,
     mouse_down = False, last_mouse_pos = (0, 0)\<rparr>"

definition camera_rotation_speed :: real where "camera_rotation_speed = 0.02"
definition deceleration :: real where "deceleration = 0.95"

text \<open>
  An event of the queue.  \<open>MOUSEBUTTONDOWN\<close> and \<open>MOUSEBUTTONUP\<close> carry \<open>event.button\<close>;
  the position carried by \<open>MOUSEBUTTONDOWN\<close> and \<open>MOUSEMOTION\<close> is what
  \<open>pygame.mouse.get_pos()\<close> returns while that event is handled.
\<close>

datatype event =
    QUIT
  | MOUSEBUTTONDOWN int "int \<times> int"
  | MOUSEBUTTONUP int
  | MOUSEMOTION "int \<times> int"
  | OTHER

fun handle_event :: "event \<Rightarrow> camera \<Rightarrow> py_exception + camera" where
  "handle_event QUIT s = Inl SystemExit"
| "handle_event (MOUSEBUTTONDOWN button pos) s =
     Inr (if button = 1 then s\<lparr>mouse_down := True, last_mouse_pos := pos\<rparr> else s)"
| "handle_event (MOUSEBUTTONUP button) s =
     Inr (if button = 1 then s\<lparr>mouse_down := False\<rparr> else s)"
| "handle_event (MOUSEMOTION (mouse_x, mouse_y)) s =
     Inr (if mouse_down s
          then (let dx = mouse_x - fst (last_mouse_pos s);
                    dy = mouse_y - snd (last_mouse_pos s)
                in s\<lparr>rot_x_velocity := rot_x_velocity s + real_of_int dy / 100,
                     rot_y_velocity := rot_y_velocity s + real_of_int dx / 100,
                     last_mouse_pos := (mouse_x, mouse_y)\<rparr>)
          else s)"
| "handle_event OTHER s = Inr s"

subsection \<open>One pass of the loop (lines 110--150)\<close>

definition update_rotation :: "real \<Rightarrow> real \<Rightarrow> camera \<Rightarrow> camera" where
  "update_rotation speed decel s =
     (let s = (if \<not> mouse_down s
               then s\<lparr>rot_x_velocity := rot_x_velocity s * decel,
                      rot_y_velocity := rot_y_velocity s * decel\<rparr>
               else s);
          s = s\<lparr>rot_x := rot_x s + rot_x_velocity s\<rparr>;
          s = s\<lparr>rot_y := rot_y s + rot_y_velocity s\<rparr>
      in if \<not> mouse_down s then s\<lparr>rot_x := rot_x s + speed\<rparr> else s)"

definition draw_shapes :: "vec3 list \<Rightarrow> geometry \<Rightarrow> gl_state \<Rightarrow> gl_state" where
  "draw_shapes stars geo g =
     (let g = draw_stars stars g;
          g = draw_object (sphere_vertices geo) (sphere_indices geo) (0.06, 0.06, 0.06) 2.0 True g;
          g = draw_object (ring_vertices geo) (ring_indices geo) (1.0, 0.5, 0.0) 2.0 False g;
          g = draw_object (additional_ring_vertices geo) (additional_ring_indices geo) (1.0, 0.5, 0.0) 2.0 False g
      in draw_object (horizontal_ring_vertices geo) (horizontal_ring_indices geo) (1.0, 0.5, 0.0) 2.0 False g)"

text \<open>
  A pass handles the queued events, updates the rotation and draws.  The star
  positions are random and are a parameter, as is the geometry.  The modelview
  matrix, which \<open>glRotatef\<close> sets from \<open>rot_x\<close> and \<open>rot_y\<close>, is not kept.
\<close>

definition frame ::
  "vec3 list \<Rightarrow> geometry \<Rightarrow> event list \<Rightarrow> camera \<times> gl_state \<Rightarrow> py_exception + camera \<times> gl_state" where
  "frame stars geo events = (\<lambda>(cam, g).
     case for_each handle_event events cam of
       Inl e \<Rightarrow> Inl e
     | Inr cam \<Rightarrow>
         Inr (update_rotation camera_rotation_speed deceleration cam, draw_shapes stars geo g))"

text \<open>
  \<open>while True\<close>: the loop only ends by \<open>quit()\<close>.  Its first \<open>k\<close> passes are run on
  the list of the \<open>k\<close> event batches that \<open>pygame.event.get()\<close> returns.
\<close>

definition main_loop ::
  "vec3 list \<Rightarrow> geometry \<Rightarrow> event list list \<Rightarrow> camera \<times> gl_state \<Rightarrow> py_exception + camera \<times> gl_state" where
  "main_loop stars geo batches st = for_each (frame stars geo) batches st"

section \<open>Notions used in the statements\<close>

text \<open>Vectors: scaling, sum and Euclidean length.\<close>

definition scale3 :: "real \<Rightarrow> vec3 \<Rightarrow> vec3" where
  "scale3 c v = (case v of (x, y, z) \<Rightarrow> (c * x, c * y, c * z))"

definition add3 :: "vec3 \<Rightarrow> vec3 \<Rightarrow> vec3" where
  "add3 u v = (case u of (a, b, c) \<Rightarrow> (case v of (x, y, z) \<Rightarrow> (a + x, b + y, c + z)))"

definition norm3 :: "vec3 \<Rightarrow> real" where
  "norm3 v = (case v of (x, y, z) \<Rightarrow> sqrt (x * x + y * y + z * z))"

text \<open>The centerline point of ring sample \<open>i\<close>, as line 39 computes it.\<close>

definition ring_centerline :: "real \<Rightarrow> int \<Rightarrow> bool \<Rightarrow> int \<Rightarrow> vec3" where
  "ring_centerline rad segments horizontal i =
     (let theta = real_of_int i * 2 * pi / real_of_int segments
      in if horizontal then (rad * cos theta, rad * sin theta, 0)
         else (rad * cos theta, 0, rad * sin theta))"

text \<open>The two vertices that line 40 appends for sample \<open>i\<close>.\<close>

definition ring_sample :: "real \<Rightarrow> real \<Rightarrow> int \<Rightarrow> bool \<Rightarrow> int \<Rightarrow> vec3 list" where
  "ring_sample rad thickness segments horizontal i =
     (case ring_centerline rad segments horizontal i of
        (x, y, z) \<Rightarrow> [(x, y, z - thickness / 2), (x, y, z + thickness / 2)])"

text \<open>The unit vector that lines 20--25 compute at grid point \<open>(lat, long)\<close>.\<close>

definition sphere_normal :: "int \<Rightarrow> int \<Rightarrow> int \<Rightarrow> int \<Rightarrow> vec3" where
  "sphere_normal lats longs lat long =
     (let theta = real_of_int lat * pi / real_of_int lats;
          phi = real_of_int long * 2 * pi / real_of_int longs
      in (cos phi * sin theta, cos theta, sin phi * sin theta))"

definition sphere_normal_grid :: "int \<Rightarrow> int \<Rightarrow> vec3 list" where
  "sphere_normal_grid lats longs =
     concat (map (\<lambda>lat. map (sphere_normal lats longs lat) (range_py (longs + 1))) (range_py (lats + 1)))"

text \<open>
  The thickness axis as the specification names it: the axis orthogonal to the ring
  plane, \<open>z\<close> for a horizontal ring and \<open>y\<close> for a vertical one.  Two vertices are
  offset along an axis when they are the centerline point moved by half the
  thickness in either direction.
\<close>

definition spec_thickness_axis :: "bool \<Rightarrow> vec3" where
  "spec_thickness_axis horizontal = (if horizontal then (0, 0, 1) else (0, 1, 0))"

definition offset_along :: "vec3 \<Rightarrow> vec3 \<Rightarrow> real \<Rightarrow> vec3 \<Rightarrow> vec3 \<Rightarrow> bool" where
  "offset_along axis c thickness v1 v2 =
     ({v1, v2} = {add3 c (scale3 (- (thickness / 2)) axis), add3 c (scale3 (thickness / 2) axis)})"

text \<open>
  An event that neither ends the program nor starts a drag: anything but \<open>QUIT\<close> and a
  press of button 1.
\<close>

fun no_press_no_quit :: "event \<Rightarrow> bool" where
  "no_press_no_quit QUIT = False"
| "no_press_no_quit (MOUSEBUTTONDOWN button pos) = (button \<noteq> 1)"
| "no_press_no_quit _ = True"

text \<open>
  A configuration the specification calls malformed: zero segments or a
  non-positive radius.
\<close>

definition malformed_ring :: "real \<Rightarrow> int \<Rightarrow> bool" where
  "malformed_ring rad segments = (segments = 0 \<or> rad \<le> 0)"

section \<open>The rotation state in double arithmetic\<close>

text \<open>
  Lines 124--137 add and multiply Python floats, which are IEEE 754 doubles: every
  operation returns the exact result rounded to the nearest double, ties to the
  even significand.  Where a claim depends on that rounding, the rotation state is
  modelled once more with it.  A double is a finite real, an infinity or a NaN; the
  sign of a zero is not kept (the program neither divides by a float nor prints
  one).
\<close>

datatype f64 = Finite real | PosInf | NegInf | NaN

text \<open>
  The exponent \<open>e\<close> with \<open>2 ^ e \<le> |x| < 2 ^ (e + 1)\<close>, not below \<open>- 1022\<close> (the subnormal
  range), and the spacing \<open>2 ^ (e - 52)\<close> of the doubles there.
\<close>

definition binade :: "real \<Rightarrow> int" where
  "binade x = max \<lfloor>log 2 \<bar>x\<bar>\<rfloor> (- 1022)"

definition ulp :: "real \<Rightarrow> real" where
  "ulp x = 2 powr real_of_int (binade x - 52)"

definition round_half_even :: "real \<Rightarrow> int" where
  "round_half_even x =
     (let f = \<lfloor>x\<rfloor>
      in if x - real_of_int f < 1 / 2 then f
         else if 1 / 2 < x - real_of_int f then f + 1
         else if even f then f else f + 1)"

text \<open>
  Rounding to the nearest double; a result of magnitude \<open>2 ^ 1024\<close> or more is an
  infinity.
\<close>

definition round_f64 :: "real \<Rightarrow> f64" where
  "round_f64 x =
     (if x = 0 then Finite 0
      else let y = real_of_int (round_half_even (x / ulp x)) * ulp x
           in if 2 ^ 1024 \<le> y then PosInf
              else if y \<le> - (2 ^ 1024) then NegInf
              else Finite y)"

text \<open>\<open>+\<close> and \<open>*\<close> on floats.\<close>

fun fneg :: "f64 \<Rightarrow> f64" where
  "fneg (Finite a) = Finite (- a)"
| "fneg PosInf = NegInf"
| "fneg NegInf = PosInf"
| "fneg NaN = NaN"

fun fadd :: "f64 \<Rightarrow> f64 \<Rightarrow> f64" where
  "fadd (Finite a) (Finite b) = round_f64 (a + b)"
| "fadd NaN y = NaN"
| "fadd x NaN = NaN"
| "fadd PosInf NegInf = NaN"
| "fadd NegInf PosInf = NaN"
| "fadd PosInf y = PosInf"
| "fadd NegInf y = NegInf"
| "fadd (Finite a) y = y"

fun fmul :: "f64 \<Rightarrow> f64 \<Rightarrow> f64" where
  "fmul (Finite a) (Finite b) = round_f64 (a * b)"
| "fmul NaN y = NaN"
| "fmul x NaN = NaN"
| "fmul (Finite a) y = (if a = 0 then NaN else if 0 < a then y else fneg y)"
| "fmul x (Finite b) = (if b = 0 then NaN else if 0 < b then x else fneg x)"
| "fmul x y = (if x = y then PosInf else NegInf)"

text \<open>
  \<open>a / b\<close> on two integers: the quotient rounded once; Python raises where it is too
  large for a double.
\<close>

definition int_truediv :: "int \<Rightarrow> int \<Rightarrow> py_exception + f64" where
  "int_truediv a b =
     (if b = 0 then Inl ZeroDivisionError
      else case round_f64 (real_of_int a / real_of_int b) of
             Finite q \<Rightarrow> Inr (Finite q)
           | _ \<Rightarrow> Inl OverflowError)"

text \<open>A value of the format: rounding leaves it as it is.\<close>

fun is_f64 :: "f64 \<Rightarrow> bool" where
  "is_f64 (Finite y) = (round_f64 y = Finite y)"
| "is_f64 _ = True"

text \<open>
  Lines 101--137 as above, with the four angles and velocities as doubles.  The
  state starts from the integers \<open>0\<close>, which convert exactly; the literals \<open>0.02\<close>
  and \<open>0.95\<close> denote the nearest doubles.
\<close>

record camera_f64 =
  rot_x_f64 :: f64
  rot_y_f64 :: f64
  rot_x_velocity_f64 :: f64
  rot_y_velocity_f64 :: f64
  mouse_down_f64 :: bool
  last_mouse_pos_f64 :: "int \<times> int"

definition initial_camera_f64 :: camera_f64 where
  "initial_camera_f64 =
     \<lparr>rot_x_f64 = Finite 0, rot_y_f64 = Finite 0,
      rot_x_velocity_f64 = Finite 0, rot_y_velocity_f64 = Finite 0,
      mouse_down_f64 = False, last_mouse_pos_f64 = (0, 0)\<rparr>"

definition camera_rotation_speed_f64 :: f64 where
  "camera_rotation_speed_f64 = round_f64 0.02"

definition deceleration_f64 :: f64 where
  "deceleration_f64 = round_f64 0.95"

fun handle_event_f64 :: "event \<Rightarrow> camera_f64 \<Rightarrow> py_exception + camera_f64" where
  "handle_event_f64 QUIT s = Inl SystemExit"
| "handle_event_f64 (MOUSEBUTTONDOWN button pos) s =
     Inr (if button = 1 then s\<lparr>mouse_down_f64 := True, last_mouse_pos_f64 := pos\<rparr> else s)"
| "handle_event_f64 (MOUSEBUTTONUP button) s =
     Inr (if button = 1 then s\<lparr>mouse_down_f64 := False\<rparr> else s)"
| "handle_event_f64 (MOUSEMOTION (mouse_x, mouse_y)) s =
     (if mouse_down_f64 s
      then (let dx = mouse_x - fst (last_mouse_pos_f64 s);
                dy = mouse_y - snd (last_mouse_pos_f64 s)
            in case int_truediv dy 100 of
                 Inl e \<Rightarrow> Inl e
               | Inr qy \<Rightarrow>
                   (case int_truediv dx 100 of
                      Inl e \<Rightarrow> Inl e
                    | Inr qx \<Rightarrow>
                        Inr (s\<lparr>rot_x_velocity_f64 := fadd (rot_x_velocity_f64 s) qy,
                               rot_y_velocity_f64 := fadd (rot_y_velocity_f64 s) qx,
                               last_mouse_pos_f64 := (mouse_x, mouse_y)\<rparr>)))
      else Inr s)"
| "handle_event_f64 OTHER s = Inr s"

definition update_rotation_f64 :: "f64 \<Rightarrow> f64 \<Rightarrow> camera_f64 \<Rightarrow> camera_f64" where
  "update_rotation_f64 speed decel s =
     (let s = (if \<not> mouse_down_f64 s
               then s\<lparr>rot_x_velocity_f64 := fmul (rot_x_velocity_f64 s) decel,
                      rot_y_velocity_f64 := fmul (rot_y_velocity_f64 s) decel\<rparr>
               else s);
          s = s\<lparr>rot_x_f64 := fadd (rot_x_f64 s) (rot_x_velocity_f64 s)\<rparr>;
          s = s\<lparr>rot_y_f64 := fadd (rot_y_f64 s) (rot_y_velocity_f64 s)\<rparr>
      in if \<not> mouse_down_f64 s then s\<lparr>rot_x_f64 := fadd (rot_x_f64 s) speed\<rparr> else s)"

definition frame_f64 ::
  "vec3 list \<Rightarrow> geometry \<Rightarrow> event list \<Rightarrow> camera_f64 \<times> gl_state \<Rightarrow> py_exception + camera_f64 \<times> gl_state" where
  "frame_f64 stars geo events = (\<lambda>(cam, g).
     case for_each handle_event_f64 events cam of
       Inl e \<Rightarrow> Inl e
     | Inr cam \<Rightarrow>
         Inr (update_rotation_f64 camera_rotation_speed_f64 deceleration_f64 cam,
              draw_shapes stars geo g))"

definition main_loop_f64 ::
  "vec3 list \<Rightarrow> geometry \<Rightarrow> event list list \<Rightarrow> camera_f64 \<times> gl_state \<Rightarrow> py_exception + camera_f64 \<times> gl_state" where
  "main_loop_f64 stars geo batches st = for_each (frame_f64 stars geo) batches st"

section \<open>Loops\<close>

lemma set_range_py: "set (range_py n) = {0..<n}"
proof -
  have "x \<in> int ` {0..<nat n}" if "0 \<le> x" "x < n" for x
    using that by (intro image_eqI[of _ _ "nat x"]) auto
  then show ?thesis by (auto simp: range_py_def)
qed

lemma length_range_py: "length (range_py n) = nat n"
  by (simp add: range_py_def)

lemma nth_range_py: "i < nat n \<Longrightarrow> range_py n ! i = int i"
  by (simp add: range_py_def)

lemma for_each_append:
  assumes "\<And>i s. i \<in> set xs \<Longrightarrow> body i s = Inr (s @ g i)"
  shows "for_each body xs s = Inr (s @ concat (map g xs))"
  using assms by (induction xs arbitrary: s) simp_all

lemma for_each_append2:
  assumes "\<And>i a b. i \<in> set xs \<Longrightarrow> body i (a, b) = Inr (a @ g i, b @ h i)"
  shows "for_each body xs (a, b) = Inr (a @ concat (map g xs), b @ concat (map h xs))"
  using assms by (induction xs arbitrary: a b) simp_all

lemma for_each_invariant:
  assumes "for_each body xs s = Inr s'" and "P s"
    and "\<And>i t t'. P t \<Longrightarrow> body i t = Inr t' \<Longrightarrow> P t'"
  shows "P s'"
  using assms
proof (induction xs arbitrary: s)
  case Nil
  then show ?case by simp
next
  case (Cons i xs)
  from Cons.prems(1) obtain t where t: "body i s = Inr t" "for_each body xs t = Inr s'"
    by (auto split: sum.splits)
  from Cons.prems(2,3) t(1) have "P t" by blast
  with Cons.IH t(2) Cons.prems(3) show ?case by blast
qed

lemma length_concat_const:
  assumes "\<And>x. x \<in> set xs \<Longrightarrow> length (f x) = c"
  shows "length (concat (map f xs)) = c * length xs"
  using assms by (induction xs) simp_all

lemma nth_concat_const:
  assumes "\<And>x. x \<in> set xs \<Longrightarrow> length (f x) = c" and "i < length xs" and "j < c"
  shows "concat (map f xs) ! (c * i + j) = f (xs ! i) ! j"
  using assms
proof (induction xs arbitrary: i)
  case Nil
  then show ?case by simp
next
  case (Cons x xs)
  show ?case
  proof (cases i)
    case 0
    with Cons.prems show ?thesis by (simp add: nth_append)
  next
    case (Suc k)
    with Cons.prems have "k < length xs" by simp
    with Cons have IH: "concat (map f xs) ! (c * k + j) = f (xs ! k) ! j" by simp
    have "length (f x) = c" using Cons.prems by simp
    then show ?thesis using Suc IH by (simp add: nth_append)
  qed
qed

section \<open>The ring generator\<close>

lemma ring_vertex_body_Inr:
  "segments \<noteq> 0 \<Longrightarrow>
   ring_vertex_body rad thickness segments horizontal i vs =
     Inr (vs @ ring_sample rad thickness segments horizontal i)"
  by (simp add: ring_vertex_body_def truediv_def ring_sample_def ring_centerline_def Let_def)

lemma create_ring_Inr:
  "segments \<noteq> 0 \<Longrightarrow>
   create_ring rad thickness segments horizontal =
     Inr (concat (map (ring_sample rad thickness segments horizontal) (range_py (segments + 1))),
          ring_index_loop segments)"
  unfolding create_ring_def
  by (subst for_each_append[where g = "ring_sample rad thickness segments horizontal"])
     (simp_all add: ring_vertex_body_Inr)

lemma create_ring_zero:
  "create_ring rad thickness 0 horizontal = Inl ZeroDivisionError"
  by (simp add: create_ring_def range_py_def ring_vertex_body_def truediv_def)

lemma length_ring_sample: "length (ring_sample rad thickness segments horizontal i) = 2"
  by (simp add: ring_sample_def split: prod.splits)

lemma length_ring_vertices:
  "length (concat (map (ring_sample rad thickness segments horizontal) (range_py (segments + 1))))
     = 2 * nat (segments + 1)"
  by (simp add: length_concat_const[where c = 2] length_ring_sample length_range_py)

lemma length_ring_quad: "length (ring_quad segments i) = 6"
  by (simp add: ring_quad_def Let_def)

lemma ring_quad_bounds:
  assumes "0 \<le> i" "i < segments" "k \<in> set (ring_quad segments i)"
  shows "0 \<le> k \<and> k \<le> 2 * segments - 1"
proof -
  define nx where "nx = (i + 1) mod segments"
  have "0 \<le> nx" "nx < segments" using assms by (simp_all add: nx_def)
  with assms show ?thesis by (auto simp: ring_quad_def Let_def nx_def[symmetric])
qed

lemma ring_index_loop_bounds:
  assumes "k \<in> set (ring_index_loop segments)"
  shows "0 \<le> k \<and> k \<le> 2 * segments - 1"
proof -
  from assms obtain i where "i \<in> set (range_py segments)" "k \<in> set (ring_quad segments i)"
    unfolding ring_index_loop_def by auto
  then show ?thesis
    using ring_quad_bounds[of i segments k] by (simp add: set_range_py)
qed

lemma length_ring_index_loop: "length (ring_index_loop segments) = 6 * nat segments"
  unfolding ring_index_loop_def
  by (simp add: length_concat_const[where c = 6] length_ring_quad length_range_py)

lemma ring_vertices_nth:
  assumes "0 \<le> i" "i \<le> segments" "j < 2"
  shows "concat (map (ring_sample rad thickness segments horizontal) (range_py (segments + 1)))
           ! (2 * nat i + j) = ring_sample rad thickness segments horizontal i ! j"
proof -
  have "nat i < length (range_py (segments + 1))"
    using assms by (simp add: length_range_py)
  moreover have "range_py (segments + 1) ! nat i = i"
    using assms by (simp add: nth_range_py)
  ultimately show ?thesis
    using nth_concat_const[where f = "ring_sample rad thickness segments horizontal"
        and xs = "range_py (segments + 1)" and c = 2 and i = "nat i" and j = j] assms(3)
    by (simp add: length_ring_sample)
qed

section \<open>Claims about the ring generator\<close>

text \<open>
  C1 (as the code has it): for every ring that \<open>create_ring\<close> returns and every sample
  \<open>i\<close> of \<open>0, \<dots>, segments\<close>, the two vertices of the sample are the centerline
  point moved by \<open>- thickness / 2\<close> and by \<open>+ thickness / 2\<close> along the \<open>z\<close> axis, for
  the horizontal and for the vertical orientation alike.
\<close>

theorem create_ring_thickness_axis:
  assumes "create_ring rad thickness segments horizontal = Inr (vertices, indices)"
    and "0 \<le> i" and "i \<le> segments"
  shows "vertices ! nat (2 * i) =
           add3 (ring_centerline rad segments horizontal i) (scale3 (- (thickness / 2)) (0, 0, 1)) \<and>
         vertices ! nat (2 * i + 1) =
           add3 (ring_centerline rad segments horizontal i) (scale3 (thickness / 2) (0, 0, 1))"
proof -
  have nz: "segments \<noteq> 0"
    using assms(1) by (auto simp: create_ring_zero)
  have vs: "vertices = concat (map (ring_sample rad thickness segments horizontal) (range_py (segments + 1)))"
    using assms(1) create_ring_Inr[OF nz, of rad thickness horizontal] by simp
  have i0: "nat (2 * i) = 2 * nat i + 0" and i1: "nat (2 * i + 1) = 2 * nat i + 1"
    using assms(2) by simp_all
  obtain x y z where c: "ring_centerline rad segments horizontal i = (x, y, z)"
    by (cases "ring_centerline rad segments horizontal i") auto
  have "vertices ! nat (2 * i) = ring_sample rad thickness segments horizontal i ! 0"
    unfolding vs i0 using assms(2,3) by (intro ring_vertices_nth) simp_all
  moreover have "vertices ! nat (2 * i + 1) = ring_sample rad thickness segments horizontal i ! 1"
    unfolding vs i1 using assms(2,3) by (intro ring_vertices_nth) simp_all
  ultimately show ?thesis
    by (simp add: ring_sample_def c add3_def scale3_def)
qed

text \<open>The statement at the vertical ring of one segment, sample \<open>1\<close>.\<close>

theorem create_ring_thickness_axis_witness:
  "create_ring 1 1 1 False = Inr ([(1, 0, - 1 / 2), (1, 0, 1 / 2), (1, 0, - 1 / 2), (1, 0, 1 / 2)], [0, 0, 1, 0, 1, 1]) \<and>
   (0::int) \<le> 1 \<and> (1::int) \<le> 1 \<and>
   [(1, 0, - 1 / 2), (1, 0, 1 / 2), (1, 0, - 1 / 2), (1, 0, 1 / 2)] ! nat (2 * 1) =
           add3 (ring_centerline 1 1 False 1) (scale3 (- (1 / 2)) (0, 0, 1)) \<and>
   [(1, 0, - 1 / 2), (1, 0, 1 / 2), (1, 0, - 1 / 2), (1, 0, 1 / 2)] ! nat (2 * 1 + 1) =
           add3 (ring_centerline 1 1 False 1) (scale3 (1 / 2) (0, 0, 1))"
proof -
  have r: "range_py 2 = [0, 1]" "range_py 1 = [0]"
    by (simp_all add: range_py_def upt_rec)
  have e: "create_ring 1 1 1 False =
      Inr ([(1, 0, - 1 / 2), (1, 0, 1 / 2), (1, 0, - 1 / 2), (1, 0, 1 / 2)], [0, 0, 1, 0, 1, 1])"
    by (simp add: create_ring_def ring_vertex_body_def truediv_def r ring_index_loop_def ring_quad_def)
  from create_ring_thickness_axis[OF e, of 1] e show ?thesis by simp
qed

text \<open>
  C1 as stated fails on the vertical ring of \<open>ring_params\<close>: its first two vertices
  are \<open>(3/2, 0, -1/4)\<close> and \<open>(3/2, 0, 1/4)\<close>; they share \<open>y = 0\<close> and are not the
  centerline point \<open>(3/2, 0, 0)\<close> moved by \<open>\<plusminus> 1/4\<close> along the \<open>y\<close> axis.
\<close>

theorem vertical_ring_not_offset_along_y:
  "\<not> offset_along (spec_thickness_axis False)
        (ring_centerline (cfg_radius ring_params) (cfg_segments ring_params) False 0)
        (cfg_thickness ring_params)
        (fst (projr (create_ring_from ring_params False)) ! 0)
        (fst (projr (create_ring_from ring_params False)) ! 1)"
proof -
  let ?vs = "fst (projr (create_ring_from ring_params False))"
  have s: "ring_sample (3 / 2) (1 / 2) 100 False 0 = [(3 / 2, 0, - (1 / 4)), (3 / 2, 0, 1 / 4)]"
    by (simp add: ring_sample_def ring_centerline_def)
  have v: "?vs = concat (map (ring_sample (3 / 2) (1 / 2) 100 False) (range_py (100 + 1)))"
    by (simp add: create_ring_from_def ring_params_def radius_def create_ring_Inr)
  have "?vs ! (2 * nat 0 + 0) = ring_sample (3 / 2) (1 / 2) 100 False 0 ! 0"
    unfolding v by (rule ring_vertices_nth) simp_all
  then have v0: "?vs ! 0 = (3 / 2, 0, - (1 / 4))"
    by (simp add: s)
  have "?vs ! (2 * nat 0 + 1) = ring_sample (3 / 2) (1 / 2) 100 False 0 ! 1"
    unfolding v by (rule ring_vertices_nth) simp_all
  then have v1: "?vs ! 1 = (3 / 2, 0, 1 / 4)"
    by (simp add: s)
  show ?thesis
    unfolding v0 v1
    by (simp add: offset_along_def spec_thickness_axis_def ring_centerline_def ring_params_def
        radius_def add3_def scale3_def doubleton_eq_iff)
qed

text \<open>
  C6: for every \<open>segments \<ge> 3\<close> the ring generator returns \<open>2 \<sqdot> (segments + 1)\<close>
  vertices and \<open>6 \<sqdot> segments\<close> indices, and every index is a position of the vertex
  list.
\<close>

theorem create_ring_counts:
  assumes "3 \<le> segments"
  shows "\<exists>vertices indices.
           create_ring rad thickness segments horizontal = Inr (vertices, indices) \<and>
           int (length vertices) = 2 * (segments + 1) \<and>
           int (length indices) = 6 * segments \<and>
           (\<forall>k \<in> set indices. 0 \<le> k \<and> k < int (length vertices))"
proof -
  let ?vs = "concat (map (ring_sample rad thickness segments horizontal) (range_py (segments + 1)))"
  have nz: "segments \<noteq> 0" using assms by simp
  have lv: "int (length ?vs) = 2 * (segments + 1)"
    using assms by (simp add: length_ring_vertices)
  have li: "int (length (ring_index_loop segments)) = 6 * segments"
    using assms by (simp add: length_ring_index_loop)
  have bd: "\<forall>k \<in> set (ring_index_loop segments). 0 \<le> k \<and> k < int (length ?vs)"
    unfolding lv using ring_index_loop_bounds[of _ segments] by fastforce
  from create_ring_Inr[OF nz, of rad thickness horizontal] lv li bd
  show ?thesis by (intro exI conjI) assumption+
qed

text \<open>The statement at three segments.\<close>

theorem create_ring_counts_witness:
  "(3::int) \<le> 3 \<and>
   (\<exists>vertices indices.
      create_ring 1 1 3 True = Inr (vertices, indices) \<and>
      int (length vertices) = 2 * (3 + 1) \<and>
      int (length indices) = 6 * 3 \<and>
      (\<forall>k \<in> set indices. 0 \<le> k \<and> k < int (length vertices)))"
  using create_ring_counts[of 3 1 1 True] by simp

text \<open>
  C10: for every \<open>segments \<ge> 1\<close> every index is at most \<open>2 \<sqdot> segments - 1\<close>; the last
  two of the \<open>2 \<sqdot> segments + 2\<close> vertices, at \<open>2 \<sqdot> segments\<close> and
  \<open>2 \<sqdot> segments + 1\<close>, are never referenced.
\<close>

theorem create_ring_seam_unused:
  assumes "1 \<le> segments"
  shows "\<exists>vertices indices.
           create_ring rad thickness segments horizontal = Inr (vertices, indices) \<and>
           int (length vertices) = 2 * segments + 2 \<and>
           (\<forall>k \<in> set indices. k \<le> 2 * segments - 1) \<and>
           2 * segments \<notin> set indices \<and> 2 * segments + 1 \<notin> set indices"
proof -
  let ?vs = "concat (map (ring_sample rad thickness segments horizontal) (range_py (segments + 1)))"
  have nz: "segments \<noteq> 0" using assms by simp
  have lv: "int (length ?vs) = 2 * segments + 2"
    using assms by (simp add: length_ring_vertices)
  have bd: "\<forall>k \<in> set (ring_index_loop segments). k \<le> 2 * segments - 1"
    using ring_index_loop_bounds[of _ segments] by blast
  have n0: "2 * segments \<notin> set (ring_index_loop segments)"
    using ring_index_loop_bounds[of "2 * segments" segments] by auto
  have n1: "2 * segments + 1 \<notin> set (ring_index_loop segments)"
    using ring_index_loop_bounds[of "2 * segments + 1" segments] by auto
  from create_ring_Inr[OF nz, of rad thickness horizontal] lv bd n0 n1
  show ?thesis by (intro exI conjI) assumption+
qed

text \<open>The statement at one segment.\<close>

theorem create_ring_seam_unused_witness:
  "(1::int) \<le> 1 \<and>
   (\<exists>vertices indices.
      create_ring 1 1 1 False = Inr (vertices, indices) \<and>
      int (length vertices) = 2 * 1 + 2 \<and>
      (\<forall>k \<in> set indices. k \<le> 2 * 1 - 1) \<and>
      2 * 1 \<notin> set indices \<and> 2 * 1 + 1 \<notin> set indices)"
  using create_ring_seam_unused[of 1 1 1 False] by simp

section \<open>The sphere generator\<close>

lemma sphere_long_body_Inr:
  "longs \<noteq> 0 \<Longrightarrow> lats \<noteq> 0 \<Longrightarrow>
   sphere_long_body rad longs (sin (real_of_int lat * pi / real_of_int lats))
       (cos (real_of_int lat * pi / real_of_int lats)) long (vs, ns) =
     Inr (vs @ [scale3 rad (sphere_normal lats longs lat long)],
          ns @ [sphere_normal lats longs lat long])"
  by (simp add: sphere_long_body_def truediv_def sphere_normal_def scale3_def Let_def)

lemma sphere_lat_body_Inr:
  assumes "lats \<noteq> 0" "longs \<noteq> 0"
  shows "sphere_lat_body rad lats longs lat (vs, ns) =
     Inr (vs @ map (\<lambda>long. scale3 rad (sphere_normal lats longs lat long)) (range_py (longs + 1)),
          ns @ map (sphere_normal lats longs lat) (range_py (longs + 1)))"
proof -
  have "for_each (sphere_long_body rad longs (sin (real_of_int lat * pi / real_of_int lats))
           (cos (real_of_int lat * pi / real_of_int lats))) (range_py (longs + 1)) (vs, ns) =
        Inr (vs @ concat (map (\<lambda>long. [scale3 rad (sphere_normal lats longs lat long)]) (range_py (longs + 1))),
             ns @ concat (map (\<lambda>long. [sphere_normal lats longs lat long]) (range_py (longs + 1))))"
    by (rule for_each_append2) (simp add: sphere_long_body_Inr assms)
  then show ?thesis
    using assms by (simp add: sphere_lat_body_def truediv_def concat_map_singleton)
qed

lemma create_sphere_Inr:
  assumes "lats \<noteq> 0" "longs \<noteq> 0"
  shows "create_sphere rad lats longs =
     Inr (map (scale3 rad) (sphere_normal_grid lats longs), sphere_normal_grid lats longs,
          sphere_index_loop lats longs)"
proof -
  have "for_each (sphere_lat_body rad lats longs) (range_py (lats + 1)) ([], []) =
        Inr ([] @ concat (map (\<lambda>lat. map (\<lambda>long. scale3 rad (sphere_normal lats longs lat long)) (range_py (longs + 1))) (range_py (lats + 1))),
             [] @ concat (map (\<lambda>lat. map (sphere_normal lats longs lat) (range_py (longs + 1))) (range_py (lats + 1))))"
    by (rule for_each_append2) (simp add: sphere_lat_body_Inr assms)
  then show ?thesis
    by (simp add: create_sphere_def sphere_normal_grid_def map_concat comp_def)
qed

lemma length_sphere_normal_grid:
  "length (sphere_normal_grid lats longs) = nat (lats + 1) * nat (longs + 1)"
  unfolding sphere_normal_grid_def
  by (simp add: length_concat_const[where c = "nat (longs + 1)"] length_range_py mult.commute)

lemma length_sphere_cell: "length (sphere_cell longs lat long) = 6"
  by (simp add: sphere_cell_def Let_def)

lemma length_sphere_index_loop:
  "length (sphere_index_loop lats longs) = 6 * nat longs * nat lats"
  unfolding sphere_index_loop_def
  by (simp add: length_concat_const[where c = "6 * nat longs"]
        length_concat_const[where c = 6] length_sphere_cell length_range_py)

lemma sphere_cell_bounds:
  assumes "0 \<le> lat" "lat < lats" "0 \<le> long" "long < longs" "k \<in> set (sphere_cell longs lat long)"
  shows "0 \<le> k \<and> k < (lats + 1) * (longs + 1)"
proof -
  define p where "p = lat * (longs + 1)"
  define q where "q = lats * (longs + 1)"
  have "lat + 1 \<le> lats" using assms by simp
  then have "(lat + 1) * (longs + 1) \<le> lats * (longs + 1)"
    using assms by (intro mult_right_mono) auto
  then have ub: "p + longs + 1 \<le> q"
    by (simp add: algebra_simps p_def q_def)
  have lb: "0 \<le> p" using assms by (simp add: p_def)
  have tot: "(lats + 1) * (longs + 1) = q + longs + 1" by (simp add: algebra_simps q_def)
  have "k \<in> {p + long, p + long + longs + 1, p + long + 1, p + long + longs + 1 + 1}"
    using assms(5) by (auto simp: sphere_cell_def Let_def p_def)
  then show ?thesis
    unfolding tot using ub lb assms(3,4) by auto
qed

lemma sphere_index_loop_bounds:
  assumes "k \<in> set (sphere_index_loop lats longs)"
  shows "0 \<le> k \<and> k < (lats + 1) * (longs + 1)"
proof -
  from assms obtain lat long where
    "lat \<in> set (range_py lats)" "long \<in> set (range_py longs)" "k \<in> set (sphere_cell longs lat long)"
    unfolding sphere_index_loop_def by auto
  then show ?thesis
    using sphere_cell_bounds[of lat lats long longs k] by (simp add: set_range_py)
qed

lemma unit_sphere_point:
  "cos b * sin a * (cos b * sin a) + cos a * cos a + sin b * sin a * (sin b * sin a) = (1::real)"
proof -
  have sb: "sin b * sin b + cos b * cos b = 1"
    using sin_cos_squared_add[of b] by (simp add: power2_eq_square)
  have sa: "sin a * sin a + cos a * cos a = 1"
    using sin_cos_squared_add[of a] by (simp add: power2_eq_square)
  have "cos b * sin a * (cos b * sin a) + cos a * cos a + sin b * sin a * (sin b * sin a)
        = sin a * sin a * (sin b * sin b + cos b * cos b) + cos a * cos a"
    by (simp only: ring_distribs ac_simps)
  also have "\<dots> = 1" by (simp only: sb sa mult_1_right)
  finally show ?thesis .
qed

text \<open>The invariant of both vertex loops: the two lists run in parallel.\<close>

lemma sphere_long_body_parallel:
  assumes "sphere_long_body rad longs (sin theta) (cos theta) long (vs, ns) = Inr (vs', ns')"
    and "list_all2 (\<lambda>v n. norm3 n = 1 \<and> v = scale3 rad n) vs ns"
  shows "list_all2 (\<lambda>v n. norm3 n = 1 \<and> v = scale3 rad n) vs' ns'"
proof -
  from assms(1) obtain phi where
    vs': "vs' = vs @ [scale3 rad (cos phi * sin theta, cos theta, sin phi * sin theta)]" and
    ns': "ns' = ns @ [(cos phi * sin theta, cos theta, sin phi * sin theta)]"
    by (auto simp: sphere_long_body_def Let_def scale3_def split: sum.splits)
  have "norm3 (cos phi * sin theta, cos theta, sin phi * sin theta) = 1"
    by (simp add: norm3_def unit_sphere_point)
  with assms(2) show ?thesis
    unfolding vs' ns' by (simp add: list_all2_appendI)
qed

lemma sphere_lat_body_parallel:
  assumes "sphere_lat_body rad lats longs lat st = Inr st'"
    and "list_all2 (\<lambda>v n. norm3 n = 1 \<and> v = scale3 rad n) (fst st) (snd st)"
  shows "list_all2 (\<lambda>v n. norm3 n = 1 \<and> v = scale3 rad n) (fst st') (snd st')"
proof -
  from assms(1) obtain theta where
    loop: "for_each (sphere_long_body rad longs (sin theta) (cos theta)) (range_py (longs + 1)) st = Inr st'"
    by (auto simp: sphere_lat_body_def split: sum.splits)
  show ?thesis
  proof (rule for_each_invariant[OF loop, where P = "\<lambda>t. list_all2 (\<lambda>v n. norm3 n = 1 \<and> v = scale3 rad n) (fst t) (snd t)"])
    show "list_all2 (\<lambda>v n. norm3 n = 1 \<and> v = scale3 rad n) (fst st) (snd st)" by (rule assms(2))
  next
    fix i t t'
    assume "list_all2 (\<lambda>v n. norm3 n = 1 \<and> v = scale3 rad n) (fst t) (snd t)"
      and "sphere_long_body rad longs (sin theta) (cos theta) i t = Inr t'"
    then show "list_all2 (\<lambda>v n. norm3 n = 1 \<and> v = scale3 rad n) (fst t') (snd t')"
      using sphere_long_body_parallel[of rad longs theta i "fst t" "snd t" "fst t'" "snd t'"] by simp
  qed
qed

lemma create_sphere_parallel:
  assumes "create_sphere rad lats longs = Inr (vertices, normals, indices)"
  shows "list_all2 (\<lambda>v n. norm3 n = 1 \<and> v = scale3 rad n) vertices normals"
proof -
  from assms have loop:
    "for_each (sphere_lat_body rad lats longs) (range_py (lats + 1)) ([], []) = Inr (vertices, normals)"
    by (auto simp: create_sphere_def split: sum.splits)
  have "list_all2 (\<lambda>v n. norm3 n = 1 \<and> v = scale3 rad n) (fst (vertices, normals)) (snd (vertices, normals))"
  proof (rule for_each_invariant[OF loop, where P = "\<lambda>t. list_all2 (\<lambda>v n. norm3 n = 1 \<and> v = scale3 rad n) (fst t) (snd t)"])
    show "list_all2 (\<lambda>v n. norm3 n = 1 \<and> v = scale3 rad n) (fst ([], [])) (snd ([], []))" by simp
  next
    fix i t t'
    assume "list_all2 (\<lambda>v n. norm3 n = 1 \<and> v = scale3 rad n) (fst t) (snd t)"
      and "sphere_lat_body rad lats longs i t = Inr t'"
    then show "list_all2 (\<lambda>v n. norm3 n = 1 \<and> v = scale3 rad n) (fst t') (snd t')"
      using sphere_lat_body_parallel by blast
  qed
  then show ?thesis by simp
qed

lemma scale3_inverse: "c \<noteq> 0 \<Longrightarrow> scale3 (1 / c) (scale3 c v) = v"
  by (cases v) (simp add: scale3_def)

section \<open>Claims about the sphere generator\<close>

text \<open>
  C5: for all \<open>lat_bands, long_bands \<ge> 1\<close> the sphere generator returns
  \<open>(lat_bands + 1) \<sqdot> (long_bands + 1)\<close> vertices and \<open>6 \<sqdot> lat_bands \<sqdot> long_bands\<close>
  indices, and every index is a position of the vertex list.
\<close>

theorem create_sphere_counts:
  assumes "1 \<le> lats" "1 \<le> longs"
  shows "\<exists>vertices ns indices.
           create_sphere rad lats longs = Inr (vertices, ns, indices) \<and>
           int (length vertices) = (lats + 1) * (longs + 1) \<and>
           int (length indices) = 6 * lats * longs \<and>
           (\<forall>k \<in> set indices. 0 \<le> k \<and> k < int (length vertices))"
proof -
  let ?vs = "map (scale3 rad) (sphere_normal_grid lats longs)"
  have nz: "lats \<noteq> 0" "longs \<noteq> 0" using assms by simp_all
  have lv: "int (length ?vs) = (lats + 1) * (longs + 1)"
    using assms by (simp add: length_sphere_normal_grid)
  have li: "int (length (sphere_index_loop lats longs)) = 6 * lats * longs"
    using assms by (simp add: length_sphere_index_loop)
  have bd: "\<forall>k \<in> set (sphere_index_loop lats longs). 0 \<le> k \<and> k < int (length ?vs)"
    unfolding lv using sphere_index_loop_bounds by blast
  from create_sphere_Inr[OF nz, of rad] lv li bd
  show ?thesis by (intro exI conjI) assumption+
qed

text \<open>The statement at one latitude band and two longitude bands.\<close>

theorem create_sphere_counts_witness:
  "(1::int) \<le> 1 \<and> (1::int) \<le> 2 \<and>
   (\<exists>vertices ns indices.
      create_sphere (3 / 2) 1 2 = Inr (vertices, ns, indices) \<and>
      int (length vertices) = (1 + 1) * (2 + 1) \<and>
      int (length indices) = 6 * 1 * 2 \<and>
      (\<forall>k \<in> set indices. 0 \<le> k \<and> k < int (length vertices)))"
  using create_sphere_counts[of 1 2 "3 / 2"] by simp

text \<open>
  C7: whatever \<open>create_sphere\<close> returns, the normals run in parallel with the
  vertices, every normal has length \<open>1\<close>, every position is \<open>radius\<close> times its
  normal, and so the normal is the position divided by \<open>radius\<close> when \<open>radius \<noteq> 0\<close>.
  The equalities are exact in real arithmetic, hence within any tolerance.
\<close>

theorem create_sphere_unit_normals:
  assumes "create_sphere rad lats longs = Inr (vertices, ns, indices)"
  shows "length ns = length vertices \<and>
         (\<forall>i < length vertices.
            norm3 (ns ! i) = 1 \<and>
            vertices ! i = scale3 rad (ns ! i) \<and>
            (rad \<noteq> 0 \<longrightarrow> ns ! i = scale3 (1 / rad) (vertices ! i)))"
proof -
  have par: "list_all2 (\<lambda>v n. norm3 n = 1 \<and> v = scale3 rad n) vertices ns"
    using assms by (rule create_sphere_parallel)
  then have len: "length ns = length vertices"
    by (simp add: list_all2_lengthD)
  have "norm3 (ns ! i) = 1 \<and> vertices ! i = scale3 rad (ns ! i) \<and>
        (rad \<noteq> 0 \<longrightarrow> ns ! i = scale3 (1 / rad) (vertices ! i))" if "i < length vertices" for i
  proof -
    from par that have "norm3 (ns ! i) = 1 \<and> vertices ! i = scale3 rad (ns ! i)"
      by (rule list_all2_nthD)
    then show ?thesis by (simp add: scale3_inverse)
  qed
  with len show ?thesis by blast
qed

text \<open>The statement on the sphere of one band each way, at its last vertex.\<close>

theorem create_sphere_unit_normals_witness:
  "create_sphere (3 / 2) 1 1 =
     Inr ([(0, 3 / 2, 0), (0, 3 / 2, 0), (0, - (3 / 2), 0), (0, - (3 / 2), 0)],
          [(0, 1, 0), (0, 1, 0), (0, - 1, 0), (0, - 1, 0)],
          [0, 2, 1, 2, 3, 1]) \<and>
   norm3 (0, - 1, 0) = 1 \<and>
   (0, - (3 / 2), 0) = scale3 (3 / 2) (0, - 1, 0) \<and>
   (0, - 1, 0) = scale3 (1 / (3 / 2)) (0, - (3 / 2), 0)"
proof -
  let ?vs = "[(0, 3 / 2, 0), (0, 3 / 2, 0), (0, - (3 / 2), 0), (0::real, - (3 / 2)::real, 0::real)]"
  let ?ns = "[(0, 1, 0), (0, 1, 0), (0, - 1, 0), (0::real, - 1::real, 0::real)]"
  have r: "range_py 2 = [0, 1]" "range_py 1 = [0]"
    by (simp_all add: range_py_def upt_rec)
  have e: "create_sphere (3 / 2) 1 1 = Inr (?vs, ?ns, [0, 2, 1, 2, 3, 1])"
    by (simp add: create_sphere_def sphere_lat_body_def sphere_long_body_def truediv_def r
        sphere_index_loop_def sphere_cell_def)
  have i: "Suc (Suc (Suc 0)) < length ?vs"
    by simp
  have nz: "(3 / 2 :: real) \<noteq> 0" by simp
  note f = create_sphere_unit_normals[OF e, THEN conjunct2, THEN spec, THEN mp, OF i]
  have v: "?vs ! Suc (Suc (Suc 0)) = (0, - (3 / 2), 0)" and n: "?ns ! Suc (Suc (Suc 0)) = (0, - 1, 0)"
    by simp_all
  from f have "norm3 (?ns ! Suc (Suc (Suc 0))) = 1" by (rule conjunct1)
  then have a: "norm3 (0, - 1, 0) = 1" unfolding n .
  from f have "?vs ! Suc (Suc (Suc 0)) = scale3 (3 / 2) (?ns ! Suc (Suc (Suc 0)))"
    by (rule conjunct2[THEN conjunct1])
  then have b: "(0, - (3 / 2), 0) = scale3 (3 / 2) (0, - 1, 0)" unfolding v n .
  from f nz have "?ns ! Suc (Suc (Suc 0)) = scale3 (1 / (3 / 2)) (?vs ! Suc (Suc (Suc 0)))"
    by (rule conjunct2[THEN conjunct2, THEN mp])
  then have c: "(0, - 1, 0) = scale3 (1 / (3 / 2)) (0, - (3 / 2), 0)" unfolding v n .
  from e a b c show ?thesis by (intro conjI)
qed

section \<open>The rotation state\<close>

lemma handle_event_idle:
  "no_press_no_quit e \<Longrightarrow> \<not> mouse_down cam \<Longrightarrow> handle_event e cam = Inr cam"
  by (cases e; cases cam) auto

lemma for_each_handle_event_idle:
  assumes "\<forall>e \<in> set events. no_press_no_quit e" and "\<not> mouse_down cam"
  shows "for_each handle_event events cam = Inr cam"
  using assms by (induction events) (simp_all add: handle_event_idle)

lemma frame_idle:
  assumes "\<forall>e \<in> set events. no_press_no_quit e" and "\<not> mouse_down cam"
  shows "frame stars geo events (cam, g) =
           Inr (update_rotation camera_rotation_speed deceleration cam, draw_shapes stars geo g)"
  using for_each_handle_event_idle[OF assms] by (simp add: frame_def)

lemma update_rotation_idle:
  assumes "\<not> mouse_down cam"
  shows "\<not> mouse_down (update_rotation speed decel cam)"
    and "rot_x_velocity (update_rotation speed decel cam) = rot_x_velocity cam * decel"
    and "rot_y_velocity (update_rotation speed decel cam) = rot_y_velocity cam * decel"
    and "rot_x (update_rotation speed decel cam) = rot_x cam + rot_x_velocity cam * decel + speed"
    and "rot_y (update_rotation speed decel cam) = rot_y cam + rot_y_velocity cam * decel"
  using assms by (simp_all add: update_rotation_def Let_def)

lemma main_loop_Nil: "main_loop stars geo [] st = Inr st"
  by (simp add: main_loop_def)

lemma main_loop_idle_Cons:
  assumes "\<forall>e \<in> set events. no_press_no_quit e" and "\<not> mouse_down cam"
  shows "main_loop stars geo (events # batches) (cam, g) =
           main_loop stars geo batches
             (update_rotation camera_rotation_speed deceleration cam, draw_shapes stars geo g)"
  using frame_idle[OF assms] by (simp add: main_loop_def)

section \<open>Claims about the rotation state\<close>

text \<open>
  C3: from a state with no drag under way, \<open>k\<close> passes whose events neither press
  button 1 nor quit all complete, and each multiplies both angular velocities by
  \<open>deceleration\<close>: after them the velocities are the initial ones times
  \<open>deceleration ^ k\<close>.
\<close>

theorem idle_frames_decay:
  assumes "\<not> mouse_down cam"
    and "\<forall>events \<in> set batches. \<forall>e \<in> set events. no_press_no_quit e"
  shows "\<exists>cam' g'. main_loop stars geo batches (cam, g) = Inr (cam', g') \<and>
           rot_x_velocity cam' = rot_x_velocity cam * deceleration ^ length batches \<and>
           rot_y_velocity cam' = rot_y_velocity cam * deceleration ^ length batches"
  using assms
proof (induction batches arbitrary: cam g)
  case Nil
  then show ?case by (simp add: main_loop_Nil)
next
  case (Cons events batches)
  let ?cam = "update_rotation camera_rotation_speed deceleration cam"
  let ?g = "draw_shapes stars geo g"
  from Cons.prems have idle: "\<forall>e \<in> set events. no_press_no_quit e"
    and rest: "\<forall>events \<in> set batches. \<forall>e \<in> set events. no_press_no_quit e"
    by simp_all
  have step: "main_loop stars geo (events # batches) (cam, g) = main_loop stars geo batches (?cam, ?g)"
    using idle Cons.prems(1) by (rule main_loop_idle_Cons)
  have "\<not> mouse_down ?cam"
    using Cons.prems(1) by (rule update_rotation_idle)
  from Cons.IH[OF this rest, of ?g] obtain cam' g' where
    run: "main_loop stars geo batches (?cam, ?g) = Inr (cam', g')" and
    vx: "rot_x_velocity cam' = rot_x_velocity ?cam * deceleration ^ length batches" and
    vy: "rot_y_velocity cam' = rot_y_velocity ?cam * deceleration ^ length batches"
    by blast
  have "rot_x_velocity cam' = rot_x_velocity cam * deceleration ^ length (events # batches)"
    using vx Cons.prems(1) by (simp add: update_rotation_idle)
  moreover have "rot_y_velocity cam' = rot_y_velocity cam * deceleration ^ length (events # batches)"
    using vy Cons.prems(1) by (simp add: update_rotation_idle)
  ultimately show ?case
    using run step by simp
qed

text \<open>
  C4: while a drag is under way, a pass whose only event is a pointer move by
  \<open>(dx, dy)\<close> from the last sampled position adds \<open>dy / 100\<close> to \<open>rot_x_velocity\<close>
  and \<open>dx / 100\<close> to \<open>rot_y_velocity\<close>; no decay is applied in that pass.
\<close>

theorem drag_accumulates:
  assumes "mouse_down cam" and "last_mouse_pos cam = (lx, ly)"
  shows "\<exists>cam' g'.
           frame stars geo [MOUSEMOTION (lx + dx, ly + dy)] (cam, g) = Inr (cam', g') \<and>
           rot_x_velocity cam' = rot_x_velocity cam + real_of_int dy / 100 \<and>
           rot_y_velocity cam' = rot_y_velocity cam + real_of_int dx / 100"
  using assms by (simp add: frame_def update_rotation_def Let_def)

section \<open>The claims about the rotation state at concrete inputs\<close>

lemma decay_example: "\<bar>1 * deceleration ^ 10 - 0.5987\<bar> < (0.0001::real)"
  by (simp add: deceleration_def power_divide abs_less_iff)

text \<open>
  Ten passes without events from velocities \<open>1\<close> and \<open>2\<close>: the first ends at
  \<open>0.95 ^ 10\<close>, within \<open>0.0001\<close> of \<open>0.5987\<close>.
\<close>

theorem idle_frames_decay_witness:
  "\<not> mouse_down (initial_camera\<lparr>rot_x_velocity := 1, rot_y_velocity := 2\<rparr>) \<and>
   list_all (list_all no_press_no_quit) (replicate 10 []) \<and>
   (\<exists>cam' g'.
      main_loop [] (projr create_geometry) (replicate 10 [])
        (initial_camera\<lparr>rot_x_velocity := 1, rot_y_velocity := 2\<rparr>, initial_gl_state) = Inr (cam', g') \<and>
      rot_x_velocity cam' = 1 * deceleration ^ 10 \<and>
      rot_y_velocity cam' = 2 * deceleration ^ 10 \<and>
      \<bar>rot_x_velocity cam' - 0.5987\<bar> < 0.0001)"
proof -
  let ?cam = "initial_camera\<lparr>rot_x_velocity := 1, rot_y_velocity := 2\<rparr>"
  have idle: "\<not> mouse_down ?cam"
    by (simp add: initial_camera_def)
  have quiet: "\<forall>events \<in> set (replicate 10 []). \<forall>e \<in> set events. no_press_no_quit e"
    by simp
  from idle_frames_decay[OF idle quiet, of "[]" "projr create_geometry" initial_gl_state]
  obtain cam' g' where
    run: "main_loop [] (projr create_geometry) (replicate 10 []) (?cam, initial_gl_state) = Inr (cam', g')"
    and vx: "rot_x_velocity cam' = 1 * deceleration ^ 10"
    and vy: "rot_y_velocity cam' = 2 * deceleration ^ 10"
    by (auto simp: initial_camera_def)
  have "\<bar>rot_x_velocity cam' - 0.5987\<bar> < 0.0001"
    unfolding vx by (rule decay_example)
  moreover have "list_all (list_all no_press_no_quit) (replicate 10 [])"
    by (simp add: list_all_iff)
  ultimately show ?thesis
    using idle run vx vy by blast
qed

text \<open>
  A move by \<open>(10, 0)\<close> during a drag: \<open>rot_y_velocity\<close> grows by \<open>0.1\<close> and
  \<open>rot_x_velocity\<close> stays.
\<close>

theorem drag_accumulates_witness:
  "mouse_down (initial_camera\<lparr>mouse_down := True, last_mouse_pos := (5, 7)\<rparr>) \<and>
   last_mouse_pos (initial_camera\<lparr>mouse_down := True, last_mouse_pos := (5, 7)\<rparr>) = (5, 7) \<and>
   (\<exists>cam' g'.
      frame [] (projr create_geometry) [MOUSEMOTION (5 + 10, 7 + 0)]
        (initial_camera\<lparr>mouse_down := True, last_mouse_pos := (5, 7)\<rparr>, initial_gl_state) = Inr (cam', g') \<and>
      rot_x_velocity cam' = 0 \<and>
      rot_y_velocity cam' = 0.1)"
  using drag_accumulates[of "initial_camera\<lparr>mouse_down := True, last_mouse_pos := (5, 7)\<rparr>" 5 7
      "[]" "projr create_geometry" 10 0 initial_gl_state]
  by (simp add: initial_camera_def)

section \<open>Drawing and startup\<close>

lemma draw_shapes_submitted:
  "submitted (draw_shapes stars geo g) = submitted g @
     [\<lparr>sub_primitive = GL_POINTS, sub_lit = False, sub_colour = (1, 1, 1),
       sub_width = star_size, sub_positions = stars, sub_normals = None, sub_elements = []\<rparr>,
      \<lparr>sub_primitive = GL_TRIANGLES, sub_lit = False, sub_colour = (0.06, 0.06, 0.06),
       sub_width = 2, sub_positions = sphere_vertices geo,
       sub_normals = Some (sphere_vertices geo), sub_elements = sphere_indices geo\<rparr>,
      \<lparr>sub_primitive = GL_TRIANGLES, sub_lit = False, sub_colour = (1, 0.5, 0),
       sub_width = 2, sub_positions = ring_vertices geo,
       sub_normals = None, sub_elements = ring_indices geo\<rparr>,
      \<lparr>sub_primitive = GL_TRIANGLES, sub_lit = False, sub_colour = (1, 0.5, 0),
       sub_width = 2, sub_positions = additional_ring_vertices geo,
       sub_normals = None, sub_elements = additional_ring_indices geo\<rparr>,
      \<lparr>sub_primitive = GL_TRIANGLES, sub_lit = False, sub_colour = (1, 0.5, 0),
       sub_width = 2, sub_positions = horizontal_ring_vertices geo,
       sub_normals = None, sub_elements = horizontal_ring_indices geo\<rparr>]"
  by (simp add: draw_shapes_def draw_stars_def draw_object_def glDrawElements_def Let_def)

lemma frame_Nil:
  "frame stars geo [] (cam, g) =
     Inr (update_rotation camera_rotation_speed deceleration cam, draw_shapes stars geo g)"
  by (simp add: frame_def)

lemma create_geometry_sphere:
  "\<not> isl create_geometry \<and>
   sphere_vertices (projr create_geometry) = map (scale3 radius) (sphere_normal_grid lat_bands long_bands) \<and>
   sphere_normals (projr create_geometry) = sphere_normal_grid lat_bands long_bands"
proof -
  have nz: "lat_bands \<noteq> 0" "long_bands \<noteq> 0"
    by (simp_all add: lat_bands_def long_bands_def)
  have seg: "cfg_segments ring_params \<noteq> 0" "cfg_segments additional_ring_params \<noteq> 0"
    "cfg_segments horizontal_ring_params \<noteq> 0"
    by (simp_all add: ring_params_def additional_ring_params_def horizontal_ring_params_def)
  show ?thesis
    unfolding create_geometry_def create_ring_from_def
    by (simp add: create_sphere_Inr[OF nz] create_ring_Inr[OF seg(1)] create_ring_Inr[OF seg(2)]
        create_ring_Inr[OF seg(3)])
qed

lemma unit_vector_not_fixed:
  assumes "norm3 n = 1" and "c \<noteq> 1"
  shows "scale3 c n \<noteq> n"
proof
  assume eq: "scale3 c n = n"
  obtain x y z where n: "n = (x, y, z)" by (cases n) auto
  from eq n assms(2) have "x = 0" "y = 0" "z = 0"
    by (simp_all add: scale3_def)
  with n assms(1) show False by (simp add: norm3_def)
qed

lemma sphere_normal_grid_unit:
  assumes "n \<in> set (sphere_normal_grid lats longs)"
  shows "norm3 n = 1"
proof -
  from assms obtain lat long where "n = sphere_normal lats longs lat long"
    by (auto simp: sphere_normal_grid_def)
  then show ?thesis
    by (simp add: norm3_def sphere_normal_def Let_def unit_sphere_point)
qed

lemma scaled_grid_differs:
  assumes "c \<noteq> 1" and "0 \<le> lats" and "0 \<le> longs"
  shows "map (scale3 c) (sphere_normal_grid lats longs) \<noteq> sphere_normal_grid lats longs"
proof
  assume eq: "map (scale3 c) (sphere_normal_grid lats longs) = sphere_normal_grid lats longs"
  have "0 < length (sphere_normal_grid lats longs)"
    using assms(2,3) by (simp add: length_sphere_normal_grid)
  then obtain n ns where g: "sphere_normal_grid lats longs = n # ns"
    by (cases "sphere_normal_grid lats longs") auto
  then have "norm3 n = 1"
    using sphere_normal_grid_unit[of n lats longs] by simp
  moreover from eq g have "scale3 c n = n" by simp
  ultimately show False
    using unit_vector_not_fixed[OF _ assms(1)] by blast
qed

section \<open>Claims about drawing and startup\<close>

text \<open>
  C2 (as the code has it): every pass that completes submits, in this order, the
  star field as white points, the sphere, and the three rings in flat orange, all
  five with lighting disabled and width \<open>2\<close> for the triangles.  The sphere is
  submitted with the normal array enabled and pointing at its vertex positions;
  the rings are submitted without normals.
\<close>

theorem frame_submissions:
  assumes "frame stars geo events (cam, g) = Inr (cam', g')"
  shows "submitted g' = submitted g @
     [\<lparr>sub_primitive = GL_POINTS, sub_lit = False, sub_colour = (1, 1, 1),
       sub_width = star_size, sub_positions = stars, sub_normals = None, sub_elements = []\<rparr>,
      \<lparr>sub_primitive = GL_TRIANGLES, sub_lit = False, sub_colour = (0.06, 0.06, 0.06),
       sub_width = 2, sub_positions = sphere_vertices geo,
       sub_normals = Some (sphere_vertices geo), sub_elements = sphere_indices geo\<rparr>,
      \<lparr>sub_primitive = GL_TRIANGLES, sub_lit = False, sub_colour = (1, 0.5, 0),
       sub_width = 2, sub_positions = ring_vertices geo,
       sub_normals = None, sub_elements = ring_indices geo\<rparr>,
      \<lparr>sub_primitive = GL_TRIANGLES, sub_lit = False, sub_colour = (1, 0.5, 0),
       sub_width = 2, sub_positions = additional_ring_vertices geo,
       sub_normals = None, sub_elements = additional_ring_indices geo\<rparr>,
      \<lparr>sub_primitive = GL_TRIANGLES, sub_lit = False, sub_colour = (1, 0.5, 0),
       sub_width = 2, sub_positions = horizontal_ring_vertices geo,
       sub_normals = None, sub_elements = horizontal_ring_indices geo\<rparr>]"
proof -
  from assms have "g' = draw_shapes stars geo g"
    by (auto simp: frame_def split: sum.splits)
  then show ?thesis
    by (simp only: draw_shapes_submitted)
qed

text \<open>The first pass of the program, with no stars and no events.\<close>

theorem frame_submissions_witness:
  "frame [] (projr create_geometry) [] (initial_camera, initial_gl_state) =
     Inr (update_rotation camera_rotation_speed deceleration initial_camera,
          draw_shapes [] (projr create_geometry) initial_gl_state) \<and>
   map sub_lit (submitted (draw_shapes [] (projr create_geometry) initial_gl_state)) =
     [False, False, False, False, False] \<and>
   map sub_normals (submitted (draw_shapes [] (projr create_geometry) initial_gl_state)) =
     [None, Some (sphere_vertices (projr create_geometry)), None, None, None]"
proof -
  have run: "frame [] (projr create_geometry) [] (initial_camera, initial_gl_state) =
     Inr (update_rotation camera_rotation_speed deceleration initial_camera,
          draw_shapes [] (projr create_geometry) initial_gl_state)"
    by (rule frame_Nil)
  from frame_submissions[OF run] run show ?thesis
    by (simp add: initial_gl_state_def)
qed

text \<open>
  C2 as stated fails in the first pass of the program: the sphere, second in the
  submissions, is drawn with lighting disabled, and its normal buffer is not
  \<open>sphere_normals\<close> (it is \<open>sphere_vertices\<close>, whose entries have length
  \<open>radius = 1.5\<close>).
\<close>

theorem sphere_submitted_unlit_with_positions:
  "\<not> sub_lit (submitted (snd (projr (frame [] (projr create_geometry) []
        (initial_camera, initial_gl_state)))) ! 1) \<and>
   sub_normals (submitted (snd (projr (frame [] (projr create_geometry) []
        (initial_camera, initial_gl_state)))) ! 1) \<noteq> Some (sphere_normals (projr create_geometry))"
proof -
  have "radius \<noteq> 1" "0 \<le> lat_bands" "0 \<le> long_bands"
    by (simp_all add: radius_def lat_bands_def long_bands_def)
  then have "sphere_vertices (projr create_geometry) \<noteq> sphere_normals (projr create_geometry)"
    using create_geometry_sphere scaled_grid_differs by simp
  then show ?thesis
    by (simp add: frame_Nil draw_shapes_submitted initial_gl_state_def)
qed

text \<open>
  C8 (as the code has it): no configuration value is checked.  Zero segments makes
  \<open>create_ring\<close> raise \<open>ZeroDivisionError\<close>, from the angle of the first sample; with
  any other segment count it returns, whatever the radius and the thickness; and
  an idle pass multiplies the velocities by the deceleration, whatever its value.
\<close>

theorem no_configuration_check:
  "create_ring rad thickness 0 horizontal = Inl ZeroDivisionError \<and>
   (segments \<noteq> 0 \<longrightarrow> \<not> isl (create_ring rad thickness segments horizontal)) \<and>
   (\<not> mouse_down cam \<longrightarrow>
      rot_x_velocity (update_rotation speed decel cam) = rot_x_velocity cam * decel \<and>
      rot_y_velocity (update_rotation speed decel cam) = rot_y_velocity cam * decel)"
  by (simp add: create_ring_zero create_ring_Inr update_rotation_def Let_def)

text \<open>Radius \<open>0\<close> with zero and with three segments, and a deceleration of \<open>2\<close>.\<close>

theorem no_configuration_check_witness:
  "create_ring 0 (1 / 2) 0 False = Inl ZeroDivisionError \<and>
   \<not> isl (create_ring 0 (1 / 2) 3 False) \<and>
   rot_x_velocity (update_rotation (1 / 50) 2 (initial_camera\<lparr>rot_x_velocity := 1\<rparr>)) = 1 * 2"
  using no_configuration_check[of 0 "1 / 2" False 3 "initial_camera\<lparr>rot_x_velocity := 1\<rparr>" "1 / 50" 2]
  by (simp add: initial_camera_def)

text \<open>
  C8 as stated fails at radius \<open>0\<close> with three segments: the configuration is
  malformed, and \<open>create_ring\<close> returns a ring whose eight vertices all lie on
  the \<open>z\<close> axis.
\<close>

theorem nonpositive_radius_accepted:
  "malformed_ring 0 3 \<and>
   create_ring 0 (1 / 2) 3 False =
     Inr ([(0, 0, - (1 / 4)), (0, 0, 1 / 4), (0, 0, - (1 / 4)), (0, 0, 1 / 4),
           (0, 0, - (1 / 4)), (0, 0, 1 / 4), (0, 0, - (1 / 4)), (0, 0, 1 / 4)],
          [0, 2, 3, 0, 3, 1, 2, 4, 5, 2, 5, 3, 4, 0, 1, 4, 1, 5])"
proof -
  have r: "range_py 4 = [0, 1, 2, 3]" "range_py 3 = [0, 1, 2]"
    by (simp_all add: range_py_def upt_rec)
  show ?thesis
    by (simp add: malformed_ring_def create_ring_def ring_vertex_body_def truediv_def r
        ring_index_loop_def ring_quad_def)
qed

section \<open>Rounding to a double\<close>

lemma round_half_even_of_int: "round_half_even (real_of_int k) = k"
  by (simp add: round_half_even_def)

lemma round_half_even_bounds:
  "real_of_int (round_half_even z) \<le> z + 1 / 2" "z - 1 / 2 \<le> real_of_int (round_half_even z)"
proof -
  have fl: "real_of_int \<lfloor>z\<rfloor> \<le> z" "z < real_of_int \<lfloor>z\<rfloor> + 1"
    by linarith+
  consider "z - real_of_int \<lfloor>z\<rfloor> < 1 / 2" | "1 / 2 < z - real_of_int \<lfloor>z\<rfloor>"
    | "z - real_of_int \<lfloor>z\<rfloor> = 1 / 2"
    by linarith
  then have "real_of_int (round_half_even z) \<le> z + 1 / 2 \<and> z - 1 / 2 \<le> real_of_int (round_half_even z)"
  proof cases
    case 1
    then have "round_half_even z = \<lfloor>z\<rfloor>" by (simp add: round_half_even_def)
    then show ?thesis using fl 1 by (simp only:) linarith
  next
    case 2
    then have "real_of_int (round_half_even z) = real_of_int \<lfloor>z\<rfloor> + 1"
      by (simp add: round_half_even_def)
    then show ?thesis using fl 2 by (simp only:) linarith
  next
    case 3
    then have "real_of_int (round_half_even z) = real_of_int \<lfloor>z\<rfloor> \<or>
        real_of_int (round_half_even z) = real_of_int \<lfloor>z\<rfloor> + 1"
      by (simp add: round_half_even_def Let_def)
    then show ?thesis
    proof
      assume "real_of_int (round_half_even z) = real_of_int \<lfloor>z\<rfloor>"
      then show ?thesis using fl 3 by (simp only:) linarith
    next
      assume "real_of_int (round_half_even z) = real_of_int \<lfloor>z\<rfloor> + 1"
      then show ?thesis using fl 3 by (simp only:) linarith
    qed
  qed
  then show "real_of_int (round_half_even z) \<le> z + 1 / 2" "z - 1 / 2 \<le> real_of_int (round_half_even z)"
    by simp_all
qed

lemma pow2_add_53: "2 ^ 53 * 2 powr real_of_int (b - 52) = 2 powr real_of_int (b + 1)"
proof -
  have a: "(2::real) powr 53 = 2 ^ 53" by simp
  have "real_of_int (b + 1) = 53 + real_of_int (b - 52)" by simp
  then have "2 powr real_of_int (b + 1) = 2 powr (53 + real_of_int (b - 52))"
    by (rule arg_cong)
  also have "\<dots> = 2 powr 53 * 2 powr real_of_int (b - 52)"
    by (rule powr_add)
  finally show ?thesis
    unfolding a by (rule sym)
qed

lemma pow2_nonneg: "0 \<le> k \<Longrightarrow> 2 powr real_of_int k = 2 ^ nat k"
  using powr_int[of 2 k] by simp

lemma pow2_neg: "2 powr real_of_int (- int n) = 1 / 2 ^ n"
  by (simp add: powr_minus_divide powr_realpow)

lemma ulp_pos: "0 < ulp x"
  by (simp add: ulp_def)

lemma binade_ge: "- 1022 \<le> binade x"
  by (simp add: binade_def)

lemma binade_eq:
  assumes "2 powr real_of_int e \<le> \<bar>x\<bar>" and "\<bar>x\<bar> < 2 powr real_of_int (e + 1)" and "- 1022 \<le> e"
  shows "binade x = e"
proof -
  have "0 < 2 powr real_of_int e" by simp
  with assms(1) have pos: "0 < \<bar>x\<bar>" by linarith
  have "\<lfloor>log 2 \<bar>x\<bar>\<rfloor> = e"
    using assms(1,2) pos by (simp add: floor_log_eq_powr_iff)
  with assms(3) show ?thesis by (simp add: binade_def)
qed

lemma binade_le:
  assumes "x \<noteq> 0" and "\<bar>x\<bar> < 2 powr real_of_int (e + 1)" and "- 1022 \<le> e"
  shows "binade x \<le> e"
proof -
  have "log 2 \<bar>x\<bar> < real_of_int (e + 1)"
    using assms(1,2) by (simp add: log_less_iff)
  then have "\<lfloor>log 2 \<bar>x\<bar>\<rfloor> < e + 1" by linarith
  with assms(3) show ?thesis by (simp add: binade_def)
qed

lemma below_next_binade:
  assumes "x \<noteq> 0"
  shows "\<bar>x\<bar> < 2 powr real_of_int (binade x + 1)"
proof -
  have "log 2 \<bar>x\<bar> < real_of_int (\<lfloor>log 2 \<bar>x\<bar>\<rfloor> + 1)" by linarith
  also have "\<dots> \<le> real_of_int (binade x + 1)" by (simp add: binade_def)
  finally have "log 2 \<bar>x\<bar> < real_of_int (binade x + 1)" .
  then show ?thesis using assms by (simp add: log_less_iff)
qed

lemma on_grid:
  assumes y: "y = real_of_int n * 2 powr real_of_int (e - 52)" and "y \<noteq> 0"
    and le: "\<bar>y\<bar> \<le> 2 powr real_of_int (e + 1)" and e: "- 1022 \<le> e"
  shows "\<exists>k. y / ulp y = real_of_int k"
proof (cases "\<bar>y\<bar> < 2 powr real_of_int (e + 1)")
  case True
  with assms have b: "binade y \<le> e" by (intro binade_le)
  have "y / ulp y = real_of_int n * (2 powr real_of_int (e - 52) / 2 powr real_of_int (binade y - 52))"
    by (simp add: y ulp_def)
  also have "2 powr real_of_int (e - 52) / 2 powr real_of_int (binade y - 52)
      = 2 powr real_of_int (e - binade y)"
    by (simp add: powr_diff [symmetric])
  also have "\<dots> = 2 ^ nat (e - binade y)"
    using b by (intro pow2_nonneg) simp
  finally have "y / ulp y = real_of_int (n * 2 ^ nat (e - binade y))" by simp
  then show ?thesis ..
next
  case False
  with le have eq: "\<bar>y\<bar> = 2 powr real_of_int (e + 1)" by simp
  have "2 powr real_of_int (e + 1) < 2 powr real_of_int (e + 1 + 1)"
    by (simp add: powr_less_cancel_iff)
  then have b: "binade y = e + 1"
    using eq e by (intro binade_eq) simp_all
  have q: "2 powr real_of_int (e + 1) / 2 powr real_of_int (e + 1 - 52) = 2 ^ 52"
    by (simp add: powr_diff [symmetric] powr_numeral)
  have "\<bar>y\<bar> / ulp y = real_of_int (2 ^ 52)"
    unfolding eq ulp_def b using q by simp
  then have "y / ulp y = real_of_int (2 ^ 52) \<or> y / ulp y = real_of_int (- (2 ^ 52))"
    using ulp_pos[of y] by (cases "0 \<le> y") (simp_all add: abs_if divide_simps)
  then show ?thesis by blast
qed

lemma round_f64_idem:
  assumes "round_f64 x = Finite y"
  shows "round_f64 y = Finite y"
proof (cases "y = 0")
  case True
  then show ?thesis by (simp add: round_f64_def)
next
  case False
  then have x0: "x \<noteq> 0" using assms by (auto simp: round_f64_def)
  define n where "n = round_half_even (x / ulp x)"
  from assms x0 have y: "y = real_of_int n * ulp x" and lim: "y < 2 ^ 1024" "- (2 ^ 1024) < y"
    by (auto simp: round_f64_def Let_def n_def split: if_splits)
  have "\<bar>x\<bar> < 2 powr real_of_int (binade x + 1)"
    using x0 by (rule below_next_binade)
  also have "\<dots> = 2 ^ 53 * ulp x"
    unfolding ulp_def by (rule pow2_add_53 [symmetric])
  finally have "\<bar>x / ulp x\<bar> < 2 ^ 53"
    using ulp_pos[of x] by (simp add: divide_simps abs_mult)
  then have "real_of_int n < 2 ^ 53 + 1" "- (2 ^ 53) - 1 < real_of_int n"
    using round_half_even_bounds[of "x / ulp x"] unfolding n_def by linarith+
  then have "real_of_int n < real_of_int (2 ^ 53 + 1)" "real_of_int (- (2 ^ 53) - 1) < real_of_int n"
    by simp_all
  then have "n < 2 ^ 53 + 1" "- (2 ^ 53) - 1 < n"
    by (simp_all only: of_int_less_iff)
  then have "n \<le> 2 ^ 53" "- (2 ^ 53) \<le> n"
    by simp_all
  then have "\<bar>real_of_int n\<bar> \<le> 2 ^ 53" by simp
  then have "\<bar>y\<bar> \<le> 2 ^ 53 * ulp x"
    using ulp_pos[of x] by (simp add: y abs_mult)
  also have "2 ^ 53 * ulp x = 2 powr real_of_int (binade x + 1)"
    unfolding ulp_def by (rule pow2_add_53)
  finally have le: "\<bar>y\<bar> \<le> 2 powr real_of_int (binade x + 1)" .
  from on_grid[OF y[unfolded ulp_def] False le binade_ge]
  obtain k where k: "y / ulp y = real_of_int k" by blast
  moreover from k have "y = real_of_int k * ulp y"
    using ulp_pos[of y] by (simp add: divide_eq_eq)
  ultimately have "real_of_int (round_half_even (y / ulp y)) * ulp y = y"
    by (simp only: round_half_even_of_int)
  with False lim show ?thesis
    by (simp add: round_f64_def Let_def)
qed

lemma round_f64_below_one:
  assumes "1 / 2 ^ (n + 1) \<le> \<bar>x\<bar>" and "\<bar>x\<bar> < 1 / 2 ^ n" and "n \<le> 1021"
  shows "round_f64 x = Finite (real_of_int (round_half_even (x * 2 ^ (n + 53))) / 2 ^ (n + 53))"
proof -
  have p1: "2 powr real_of_int (- int (n + 1)) = 1 / 2 ^ (n + 1)"
    by (rule pow2_neg)
  have "- int (n + 1) + 1 = - int n" by simp
  then have p2: "2 powr real_of_int (- int (n + 1) + 1) = 1 / 2 ^ n"
    by (simp only: pow2_neg)
  have b: "binade x = - int (n + 1)"
  proof (rule binade_eq)
    show "2 powr real_of_int (- int (n + 1)) \<le> \<bar>x\<bar>"
      unfolding p1 by (rule assms(1))
    show "\<bar>x\<bar> < 2 powr real_of_int (- int (n + 1) + 1)"
      unfolding p2 by (rule assms(2))
    show "- 1022 \<le> - int (n + 1)"
      using assms(3) by simp
  qed
  have "- int (n + 1) - 52 = - int (n + 53)" by simp
  then have u: "ulp x = 1 / 2 ^ (n + 53)"
    unfolding ulp_def b by (simp only: pow2_neg)
  have "(0::real) < 1 / 2 ^ (n + 1)" by simp
  with assms(1) have "0 < \<bar>x\<bar>" by linarith
  then have x0: "x \<noteq> 0" by simp
  define m where "m = round_half_even (x * 2 ^ (n + 53))"
  have "\<bar>x * 2 ^ (n + 53)\<bar> < 2 ^ 53"
  proof -
    have "\<bar>x\<bar> * 2 ^ (n + 53) < (1 / 2 ^ n) * 2 ^ (n + 53)"
      using assms(2) by (intro mult_strict_right_mono) simp_all
    then show ?thesis by (simp add: abs_mult power_add)
  qed
  then have "\<bar>real_of_int m\<bar> \<le> 2 ^ 53 + 1"
    using round_half_even_bounds[of "x * 2 ^ (n + 53)"] unfolding m_def by linarith
  then have m: "\<bar>real_of_int m\<bar> < 2 ^ 1024" by simp
  have "(1::real) \<le> 2 ^ (n + 53)" by (rule one_le_power) simp
  then have "\<bar>real_of_int m\<bar> / 2 ^ (n + 53) \<le> \<bar>real_of_int m\<bar> / 1"
    by (intro divide_left_mono) simp_all
  with m have "\<bar>real_of_int m / 2 ^ (n + 53)\<bar> < 2 ^ 1024" by simp
  then have lim: "\<not> 2 ^ 1024 \<le> real_of_int m / 2 ^ (n + 53)"
    "\<not> real_of_int m / 2 ^ (n + 53) \<le> - (2 ^ 1024)"
    by linarith+
  show ?thesis
    using x0 lim by (simp add: round_f64_def u m_def Let_def)
qed

section \<open>Double arithmetic\<close>

lemma is_f64_round: "is_f64 (round_f64 z)"
  by (cases "round_f64 z") (simp_all add: round_f64_idem)

lemma is_f64_fadd: "is_f64 (fadd a b)"
  by (cases a; cases b) (simp_all add: is_f64_round)

lemma fadd_zero_right: "is_f64 x \<Longrightarrow> fadd x (Finite 0) = x"
  by (cases x) simp_all

lemma camera_rotation_speed_f64_eq:
  "camera_rotation_speed_f64 = Finite (5764607523034235 / 2 ^ 58)"
proof -
  have "round_f64 (1 / 50) =
      Finite (real_of_int (round_half_even (1 / 50 * 2 ^ (5 + 53))) / 2 ^ (5 + 53))"
    by (rule round_f64_below_one) simp_all
  moreover have "round_half_even (1 / 50 * 2 ^ (5 + 53)) = 5764607523034235"
    by (simp add: round_half_even_def Let_def)
  ultimately show ?thesis
    by (simp add: camera_rotation_speed_f64_def)
qed

lemma deceleration_f64_eq:
  "deceleration_f64 = Finite (4278419646001971 / 2 ^ 52)"
proof -
  have "round_f64 (19 / 20) =
      Finite (real_of_int (round_half_even (19 / 20 * 2 ^ (0 + 53))) / 2 ^ (0 + 53))"
    by (rule round_f64_below_one) simp_all
  moreover have "round_half_even (19 / 20 * 2 ^ (0 + 53)) = 8556839292003942"
    by (simp add: round_half_even_def Let_def)
  ultimately show ?thesis
    by (simp add: deceleration_f64_def)
qed

section \<open>Idle passes in double arithmetic\<close>

lemma handle_event_f64_idle:
  "no_press_no_quit e \<Longrightarrow> \<not> mouse_down_f64 cam \<Longrightarrow> handle_event_f64 e cam = Inr cam"
  by (cases e; cases cam) auto

lemma for_each_handle_event_f64_idle:
  assumes "\<forall>e \<in> set events. no_press_no_quit e" and "\<not> mouse_down_f64 cam"
  shows "for_each handle_event_f64 events cam = Inr cam"
  using assms by (induction events) (simp_all add: handle_event_f64_idle)

lemma main_loop_f64_Nil: "main_loop_f64 stars geo [] st = Inr st"
  by (simp add: main_loop_f64_def)

lemma main_loop_f64_idle_Cons:
  assumes "\<forall>e \<in> set events. no_press_no_quit e" and "\<not> mouse_down_f64 cam"
  shows "main_loop_f64 stars geo (events # batches) (cam, g) =
           main_loop_f64 stars geo batches
             (update_rotation_f64 camera_rotation_speed_f64 deceleration_f64 cam,
              draw_shapes stars geo g)"
  using for_each_handle_event_f64_idle[OF assms] by (simp add: main_loop_f64_def frame_f64_def)

lemma update_rotation_f64_at_rest:
  assumes "\<not> mouse_down_f64 cam" and "rot_x_velocity_f64 cam = Finite 0"
    and "rot_y_velocity_f64 cam = Finite 0" and "rot_y_f64 cam = Finite 0"
    and "is_f64 (rot_x_f64 cam)"
  shows "\<not> mouse_down_f64 (update_rotation_f64 camera_rotation_speed_f64 deceleration_f64 cam)"
    and "rot_x_velocity_f64 (update_rotation_f64 camera_rotation_speed_f64 deceleration_f64 cam) = Finite 0"
    and "rot_y_velocity_f64 (update_rotation_f64 camera_rotation_speed_f64 deceleration_f64 cam) = Finite 0"
    and "rot_y_f64 (update_rotation_f64 camera_rotation_speed_f64 deceleration_f64 cam) = Finite 0"
    and "rot_x_f64 (update_rotation_f64 camera_rotation_speed_f64 deceleration_f64 cam) =
           fadd (rot_x_f64 cam) camera_rotation_speed_f64"
    and "is_f64 (rot_x_f64 (update_rotation_f64 camera_rotation_speed_f64 deceleration_f64 cam))"
proof -
  have z: "round_f64 0 = Finite 0" by (simp add: round_f64_def)
  have x: "fadd (rot_x_f64 cam) (Finite 0) = rot_x_f64 cam"
    using assms(5) by (rule fadd_zero_right)
  show "\<not> mouse_down_f64 (update_rotation_f64 camera_rotation_speed_f64 deceleration_f64 cam)"
    and "rot_x_velocity_f64 (update_rotation_f64 camera_rotation_speed_f64 deceleration_f64 cam) = Finite 0"
    and "rot_y_velocity_f64 (update_rotation_f64 camera_rotation_speed_f64 deceleration_f64 cam) = Finite 0"
    and "rot_y_f64 (update_rotation_f64 camera_rotation_speed_f64 deceleration_f64 cam) = Finite 0"
    and r: "rot_x_f64 (update_rotation_f64 camera_rotation_speed_f64 deceleration_f64 cam) =
           fadd (rot_x_f64 cam) camera_rotation_speed_f64"
    using assms(1,2,3,4) x
    by (simp_all add: update_rotation_f64_def Let_def deceleration_f64_eq z)
  show "is_f64 (rot_x_f64 (update_rotation_f64 camera_rotation_speed_f64 deceleration_f64 cam))"
    unfolding r by (rule is_f64_fadd)
qed

lemma main_loop_f64_at_rest:
  assumes "\<forall>events \<in> set batches. \<forall>e \<in> set events. no_press_no_quit e"
    and "\<not> mouse_down_f64 cam" and "rot_x_velocity_f64 cam = Finite 0"
    and "rot_y_velocity_f64 cam = Finite 0" and "rot_y_f64 cam = Finite 0"
    and "is_f64 (rot_x_f64 cam)"
  shows "\<exists>cam' g'. main_loop_f64 stars geo batches (cam, g) = Inr (cam', g') \<and>
           rot_x_velocity_f64 cam' = Finite 0 \<and> rot_y_velocity_f64 cam' = Finite 0 \<and>
           rot_y_f64 cam' = Finite 0 \<and>
           rot_x_f64 cam' =
             ((\<lambda>x. fadd x camera_rotation_speed_f64) ^^ length batches) (rot_x_f64 cam)"
  using assms
proof (induction batches arbitrary: cam g)
  case Nil
  then show ?case by (simp add: main_loop_f64_Nil)
next
  case (Cons events batches)
  let ?cam = "update_rotation_f64 camera_rotation_speed_f64 deceleration_f64 cam"
  let ?g = "draw_shapes stars geo g"
  from Cons.prems(1) have idle: "\<forall>e \<in> set events. no_press_no_quit e"
    and rest: "\<forall>events \<in> set batches. \<forall>e \<in> set events. no_press_no_quit e"
    by simp_all
  have step: "main_loop_f64 stars geo (events # batches) (cam, g) =
      main_loop_f64 stars geo batches (?cam, ?g)"
    using idle Cons.prems(2) by (rule main_loop_f64_idle_Cons)
  note up = update_rotation_f64_at_rest[OF Cons.prems(2,3,4,5,6)]
  from Cons.IH[OF rest up(1,2,3,4,6), of ?g] obtain cam' g' where
    run: "main_loop_f64 stars geo batches (?cam, ?g) = Inr (cam', g')" and
    res: "rot_x_velocity_f64 cam' = Finite 0" "rot_y_velocity_f64 cam' = Finite 0"
      "rot_y_f64 cam' = Finite 0" and
    rx: "rot_x_f64 cam' = ((\<lambda>x. fadd x camera_rotation_speed_f64) ^^ length batches) (rot_x_f64 ?cam)"
    by blast
  have "rot_x_f64 cam' =
      ((\<lambda>x. fadd x camera_rotation_speed_f64) ^^ length (events # batches)) (rot_x_f64 cam)"
    unfolding rx up(5) by (simp add: funpow_Suc_right del: funpow.simps)
  with res run step show ?case by simp
qed

lemma initial_camera_f64_at_rest:
  "\<not> mouse_down_f64 initial_camera_f64" "rot_x_velocity_f64 initial_camera_f64 = Finite 0"
  "rot_y_velocity_f64 initial_camera_f64 = Finite 0" "rot_y_f64 initial_camera_f64 = Finite 0"
  "rot_x_f64 initial_camera_f64 = Finite 0" "is_f64 (rot_x_f64 initial_camera_f64)"
  by (simp_all add: initial_camera_f64_def round_f64_def)

text \<open>The first six sums \<open>0.02 + \<dots> + 0.02\<close>, each rounded.\<close>

lemma speed_sums:
  "fadd (Finite 0) camera_rotation_speed_f64 = Finite (5764607523034235 / 2 ^ 58)"
  "fadd (Finite (5764607523034235 / 2 ^ 58)) camera_rotation_speed_f64 = Finite (5764607523034235 / 2 ^ 57)"
  "fadd (Finite (5764607523034235 / 2 ^ 57)) camera_rotation_speed_f64 = Finite (1080863910568919 / 2 ^ 54)"
  "fadd (Finite (1080863910568919 / 2 ^ 54)) camera_rotation_speed_f64 = Finite (5764607523034235 / 2 ^ 56)"
  "fadd (Finite (5764607523034235 / 2 ^ 56)) camera_rotation_speed_f64 = Finite (3602879701896397 / 2 ^ 55)"
  "fadd (Finite (3602879701896397 / 2 ^ 55)) camera_rotation_speed_f64 = Finite (8646911284551353 / 2 ^ 56)"
proof -
  have s1: "round_f64 (0 + 5764607523034235 / 2 ^ 58) =
      Finite (real_of_int (round_half_even ((0 + 5764607523034235 / 2 ^ 58) * 2 ^ (5 + 53))) / 2 ^ (5 + 53))"
    by (rule round_f64_below_one) simp_all
  have s2: "round_f64 (5764607523034235 / 2 ^ 58 + 5764607523034235 / 2 ^ 58) =
      Finite (real_of_int (round_half_even ((5764607523034235 / 2 ^ 58 + 5764607523034235 / 2 ^ 58) * 2 ^ (4 + 53))) / 2 ^ (4 + 53))"
    by (rule round_f64_below_one) simp_all
  have s3: "round_f64 (5764607523034235 / 2 ^ 57 + 5764607523034235 / 2 ^ 58) =
      Finite (real_of_int (round_half_even ((5764607523034235 / 2 ^ 57 + 5764607523034235 / 2 ^ 58) * 2 ^ (4 + 53))) / 2 ^ (4 + 53))"
    by (rule round_f64_below_one) simp_all
  have s4: "round_f64 (1080863910568919 / 2 ^ 54 + 5764607523034235 / 2 ^ 58) =
      Finite (real_of_int (round_half_even ((1080863910568919 / 2 ^ 54 + 5764607523034235 / 2 ^ 58) * 2 ^ (3 + 53))) / 2 ^ (3 + 53))"
    by (rule round_f64_below_one) simp_all
  have s5: "round_f64 (5764607523034235 / 2 ^ 56 + 5764607523034235 / 2 ^ 58) =
      Finite (real_of_int (round_half_even ((5764607523034235 / 2 ^ 56 + 5764607523034235 / 2 ^ 58) * 2 ^ (3 + 53))) / 2 ^ (3 + 53))"
    by (rule round_f64_below_one) simp_all
  have s6: "round_f64 (3602879701896397 / 2 ^ 55 + 5764607523034235 / 2 ^ 58) =
      Finite (real_of_int (round_half_even ((3602879701896397 / 2 ^ 55 + 5764607523034235 / 2 ^ 58) * 2 ^ (3 + 53))) / 2 ^ (3 + 53))"
    by (rule round_f64_below_one) simp_all
  show "fadd (Finite 0) camera_rotation_speed_f64 = Finite (5764607523034235 / 2 ^ 58)"
    unfolding camera_rotation_speed_f64_eq fadd.simps s1
    by (simp add: round_half_even_def Let_def)
  show "fadd (Finite (5764607523034235 / 2 ^ 58)) camera_rotation_speed_f64 = Finite (5764607523034235 / 2 ^ 57)"
    unfolding camera_rotation_speed_f64_eq fadd.simps s2
    by (simp add: round_half_even_def Let_def)
  show "fadd (Finite (5764607523034235 / 2 ^ 57)) camera_rotation_speed_f64 = Finite (1080863910568919 / 2 ^ 54)"
    unfolding camera_rotation_speed_f64_eq fadd.simps s3
    by (simp add: round_half_even_def Let_def)
  show "fadd (Finite (1080863910568919 / 2 ^ 54)) camera_rotation_speed_f64 = Finite (5764607523034235 / 2 ^ 56)"
    unfolding camera_rotation_speed_f64_eq fadd.simps s4
    by (simp add: round_half_even_def Let_def)
  show "fadd (Finite (5764607523034235 / 2 ^ 56)) camera_rotation_speed_f64 = Finite (3602879701896397 / 2 ^ 55)"
    unfolding camera_rotation_speed_f64_eq fadd.simps s5
    by (simp add: round_half_even_def Let_def)
  show "fadd (Finite (3602879701896397 / 2 ^ 55)) camera_rotation_speed_f64 = Finite (8646911284551353 / 2 ^ 56)"
    unfolding camera_rotation_speed_f64_eq fadd.simps s6
    by (simp add: round_half_even_def Let_def)
qed

lemma six_times_speed:
  "fmul (Finite 6) camera_rotation_speed_f64 = Finite (1080863910568919 / 2 ^ 53)"
proof -
  have "round_f64 (6 * (5764607523034235 / 2 ^ 58)) =
      Finite (real_of_int (round_half_even ((6 * (5764607523034235 / 2 ^ 58)) * 2 ^ (3 + 53))) / 2 ^ (3 + 53))"
    by (rule round_f64_below_one) simp_all
  then show ?thesis
    unfolding camera_rotation_speed_f64_eq fmul.simps
    by (simp add: round_half_even_def Let_def)
qed

lemma round_f64_error:
  assumes "\<bar>z\<bar> < 32"
  shows "\<exists>y. round_f64 z = Finite y \<and> \<bar>y - z\<bar> \<le> 1 / 2 ^ 49"
proof (cases "z = 0")
  case True
  then show ?thesis by (simp add: round_f64_def)
next
  case False
  define y where "y = real_of_int (round_half_even (z / ulp z)) * ulp z"
  have "(2::real) powr real_of_int (4 + 1) = 32" by simp
  with assms have "\<bar>z\<bar> < 2 powr real_of_int (4 + 1)" by (simp only:)
  with False have "binade z \<le> 4" by (intro binade_le) simp_all
  then have "real_of_int (binade z - 52) \<le> real_of_int (- int 48)" by simp
  then have "ulp z \<le> 2 powr real_of_int (- int 48)"
    unfolding ulp_def by (intro powr_mono) simp_all
  then have u: "ulp z \<le> 1 / 2 ^ 48" by (simp only: pow2_neg)
  have "\<bar>real_of_int (round_half_even (z / ulp z)) - z / ulp z\<bar> \<le> 1 / 2"
    using round_half_even_bounds[of "z / ulp z"] by linarith
  then have "\<bar>real_of_int (round_half_even (z / ulp z)) - z / ulp z\<bar> * ulp z \<le> 1 / 2 * ulp z"
    using ulp_pos[of z] by (intro mult_right_mono) simp_all
  moreover have "\<bar>real_of_int (round_half_even (z / ulp z)) - z / ulp z\<bar> * ulp z = \<bar>y - z\<bar>"
  proof -
    have "(real_of_int (round_half_even (z / ulp z)) - z / ulp z) * ulp z = y - z"
      using ulp_pos[of z] by (simp add: y_def algebra_simps)
    then have "\<bar>(real_of_int (round_half_even (z / ulp z)) - z / ulp z) * ulp z\<bar> = \<bar>y - z\<bar>"
      by (rule arg_cong)
    then show ?thesis
      using ulp_pos[of z] by (simp only: abs_mult abs_of_pos)
  qed
  ultimately have "\<bar>y - z\<bar> \<le> 1 / 2 * ulp z" by simp
  with u have err: "\<bar>y - z\<bar> \<le> 1 / 2 ^ 49" by simp
  have "(1::real) / 2 ^ 49 \<le> 1" by simp
  with err assms have "\<bar>y\<bar> < 33" by linarith
  then have "\<not> 2 ^ 1024 \<le> y" "\<not> y \<le> - (2 ^ 1024)" by simp_all
  then have "round_f64 z = Finite y"
    using False by (simp add: round_f64_def Let_def y_def [symmetric])
  with err show ?thesis by blast
qed

lemma speed_sum_error:
  assumes "k \<le> 1000"
  shows "\<exists>y. ((\<lambda>x. fadd x camera_rotation_speed_f64) ^^ k) (Finite 0) = Finite y \<and>
           \<bar>y - real k * (5764607523034235 / 2 ^ 58)\<bar> \<le> real k * (1 / 2 ^ 49)"
proof -
  define c :: real where "c = 5764607523034235 / 2 ^ 58"
  define h :: real where "h = 1 / 2 ^ 49"
  have c: "0 \<le> c" "c \<le> 1 / 40" and h: "0 \<le> h" "h \<le> 1 / 1000"
    by (simp_all add: c_def h_def)
  have speed: "camera_rotation_speed_f64 = Finite c"
    by (simp only: camera_rotation_speed_f64_eq c_def)
  have "\<exists>y. ((\<lambda>x. fadd x camera_rotation_speed_f64) ^^ k) (Finite 0) = Finite y \<and>
           \<bar>y - real k * c\<bar> \<le> real k * h"
    using assms
  proof (induction k)
    case 0
    then show ?case by simp
  next
    case (Suc k)
    then obtain y where y: "((\<lambda>x. fadd x camera_rotation_speed_f64) ^^ k) (Finite 0) = Finite y"
      and e: "\<bar>y - real k * c\<bar> \<le> real k * h"
      by auto
    have k: "real k \<le> 999" using Suc.prems by simp
    have kc: "real k * c \<le> 999 * c" "0 \<le> real k * c"
      using k c(1) by (simp_all add: mult_right_mono)
    have kh: "real k * h \<le> 999 * h"
      using k h(1) by (simp add: mult_right_mono)
    have "\<bar>y + c\<bar> < 32"
      using e kc kh c h by linarith
    from round_f64_error[OF this] obtain y' where
      y': "round_f64 (y + c) = Finite y'" and e': "\<bar>y' - (y + c)\<bar> \<le> 1 / 2 ^ 49"
      by blast
    have "((\<lambda>x. fadd x camera_rotation_speed_f64) ^^ Suc k) (Finite 0) = Finite y'"
      by (simp only: funpow.simps o_apply y) (simp add: speed y')
    moreover have "\<bar>y' - real (Suc k) * c\<bar> \<le> real (Suc k) * h"
    proof -
      have "real (Suc k) * c = real k * c + c" "real (Suc k) * h = real k * h + h"
        by (simp_all add: algebra_simps)
      with e e' show ?thesis unfolding h_def [symmetric] by linarith
    qed
    ultimately show ?case by blast
  qed
  then show ?thesis by (simp only: c_def h_def)
qed

lemma speed_sum_near:
  assumes "k \<le> 1000"
  shows "\<exists>y. ((\<lambda>x. fadd x camera_rotation_speed_f64) ^^ k) (Finite 0) = Finite y \<and>
           \<bar>y - real k * 0.02\<bar> \<le> real k / 2 ^ 48"
proof -
  define c :: real where "c = 5764607523034235 / 2 ^ 58"
  define h :: real where "h = 1 / 2 ^ 49"
  from speed_sum_error[OF assms] obtain y where
    y: "((\<lambda>x. fadd x camera_rotation_speed_f64) ^^ k) (Finite 0) = Finite y" and
    e: "\<bar>y - real k * c\<bar> \<le> real k * h"
    unfolding c_def h_def by blast
  have "\<bar>c - 0.02\<bar> \<le> h"
    by (simp add: c_def h_def)
  then have "real k * \<bar>c - 0.02\<bar> \<le> real k * h"
    by (intro mult_left_mono) simp_all
  moreover have "real k * \<bar>c - 0.02\<bar> = \<bar>real k * c - real k * 0.02\<bar>"
    by (simp only: right_diff_distrib [symmetric] abs_mult abs_of_nat)
  ultimately have d: "\<bar>real k * c - real k * 0.02\<bar> \<le> real k * h" by simp
  define q :: real where "q = real k * 0.02"
  from e d have "\<bar>y - q\<bar> \<le> real k * h + real k * h"
    unfolding q_def [symmetric] by linarith
  also have "\<dots> = real k / 2 ^ 48" by (simp add: h_def)
  finally show ?thesis using y unfolding q_def by blast
qed

lemma speed_sum_six:
  "((\<lambda>x. fadd x camera_rotation_speed_f64) ^^ 6) (Finite 0) = Finite (8646911284551353 / 2 ^ 56)"
proof -
  have "(6::nat) = Suc (Suc (Suc (Suc (Suc (Suc 0)))))" by simp
  then show ?thesis
    by (simp only: funpow.simps o_apply id_apply speed_sums)
qed

text \<open>
  C9 (as the code has it): if button 1 is never pressed (and the program is not
  quit), then after \<open>k\<close> passes from the initial state both angular velocities are
  exactly \<open>0\<close>, \<open>rot_y\<close> is exactly \<open>0\<close>, and \<open>rot_x\<close> is what \<open>k\<close> rounded additions of
  \<open>camera_rotation_speed\<close> make of \<open>0\<close>; for \<open>k \<le> 1000\<close> that is within \<open>k / 2 ^ 48\<close> of
  \<open>k \<sqdot> 0.02\<close>.
\<close>

theorem never_pressed_frames_f64:
  assumes "\<forall>events \<in> set batches. \<forall>e \<in> set events. no_press_no_quit e"
  shows "\<exists>cam g'. main_loop_f64 stars geo batches (initial_camera_f64, g) = Inr (cam, g') \<and>
           rot_x_velocity_f64 cam = Finite 0 \<and> rot_y_velocity_f64 cam = Finite 0 \<and>
           rot_y_f64 cam = Finite 0 \<and>
           rot_x_f64 cam =
             ((\<lambda>x. fadd x camera_rotation_speed_f64) ^^ length batches) (Finite 0) \<and>
           (length batches \<le> 1000 \<longrightarrow>
              (\<exists>y. rot_x_f64 cam = Finite y \<and>
                 \<bar>y - real (length batches) * 0.02\<bar> \<le> real (length batches) / 2 ^ 48))"
proof -
  from main_loop_f64_at_rest[OF assms initial_camera_f64_at_rest(1,2,3,4,6), of stars geo g]
  obtain cam g' where
    run: "main_loop_f64 stars geo batches (initial_camera_f64, g) = Inr (cam, g')" and
    res: "rot_x_velocity_f64 cam = Finite 0" "rot_y_velocity_f64 cam = Finite 0"
      "rot_y_f64 cam = Finite 0" and
    rx: "rot_x_f64 cam = ((\<lambda>x. fadd x camera_rotation_speed_f64) ^^ length batches) (Finite 0)"
    unfolding initial_camera_f64_at_rest(5) by blast
  have "length batches \<le> 1000 \<longrightarrow>
      (\<exists>y. rot_x_f64 cam = Finite y \<and>
         \<bar>y - real (length batches) * 0.02\<bar> \<le> real (length batches) / 2 ^ 48)"
    unfolding rx using speed_sum_near[of "length batches"] by blast
  with run res rx show ?thesis by blast
qed

text \<open>
  Six passes with a pointer move, a release and a press of button 3: \<open>rot_x\<close> ends
  at \<open>8646911284551353 / 2 ^ 56\<close>, which prints as \<open>0.12000000000000001\<close>.
\<close>

theorem never_pressed_frames_f64_witness:
  "list_all (list_all no_press_no_quit)
     [[MOUSEMOTION (3, 4)], [], [MOUSEBUTTONUP 1, MOUSEBUTTONDOWN 3 (0, 0)], [], [], []] \<and>
   (\<exists>cam g'.
      main_loop_f64 [] (projr create_geometry)
        [[MOUSEMOTION (3, 4)], [], [MOUSEBUTTONUP 1, MOUSEBUTTONDOWN 3 (0, 0)], [], [], []]
        (initial_camera_f64, initial_gl_state) = Inr (cam, g') \<and>
      rot_x_velocity_f64 cam = Finite 0 \<and> rot_y_velocity_f64 cam = Finite 0 \<and>
      rot_y_f64 cam = Finite 0 \<and>
      rot_x_f64 cam = Finite (8646911284551353 / 2 ^ 56) \<and>
      \<bar>8646911284551353 / 2 ^ 56 - 6 * 0.02\<bar> \<le> (6 / 2 ^ 48 :: real))"
proof -
  let ?batches = "[[MOUSEMOTION (3, 4)], [], [MOUSEBUTTONUP 1, MOUSEBUTTONDOWN 3 (0, 0)], [], [], []]"
  have quiet: "\<forall>events \<in> set ?batches. \<forall>e \<in> set events. no_press_no_quit e"
    by simp
  have len: "length ?batches = 6" by simp
  from never_pressed_frames_f64[OF quiet, of "[]" "projr create_geometry" initial_gl_state]
  obtain cam g' where
    run: "main_loop_f64 [] (projr create_geometry) ?batches (initial_camera_f64, initial_gl_state) =
      Inr (cam, g')" and
    res: "rot_x_velocity_f64 cam = Finite 0" "rot_y_velocity_f64 cam = Finite 0"
      "rot_y_f64 cam = Finite 0" and
    rx: "rot_x_f64 cam = ((\<lambda>x. fadd x camera_rotation_speed_f64) ^^ length ?batches) (Finite 0)" and
    near: "length ?batches \<le> 1000 \<longrightarrow>
      (\<exists>y. rot_x_f64 cam = Finite y \<and>
         \<bar>y - real (length ?batches) * 0.02\<bar> \<le> real (length ?batches) / 2 ^ 48)"
    by blast
  have x: "rot_x_f64 cam = Finite (8646911284551353 / 2 ^ 56)"
    unfolding rx len by (rule speed_sum_six)
  from near obtain y where "rot_x_f64 cam = Finite y"
    and "\<bar>y - real (6::nat) * 0.02\<bar> \<le> real (6::nat) / 2 ^ 48"
    unfolding len by auto
  with x have "\<bar>8646911284551353 / 2 ^ 56 - 6 * 0.02\<bar> \<le> (6 / 2 ^ 48 :: real)"
    by simp
  moreover have "list_all (list_all no_press_no_quit) ?batches" by simp
  ultimately show ?thesis
    using run res x by blast
qed

text \<open>
  C9 as stated fails after six passes without events: \<open>rot_x\<close> is
  \<open>8646911284551353 / 2 ^ 56\<close>, one spacing above the double \<open>6 * 0.02\<close>, and it is
  not the real number \<open>6 \<sqdot> 0.02\<close> either.
\<close>

theorem six_idle_frames_not_six_times_speed:
  "rot_x_f64 (fst (projr (main_loop_f64 [] (projr create_geometry) (replicate 6 [])
       (initial_camera_f64, initial_gl_state)))) = Finite (8646911284551353 / 2 ^ 56) \<and>
   fmul (Finite 6) camera_rotation_speed_f64 = Finite (8646911284551352 / 2 ^ 56) \<and>
   rot_x_f64 (fst (projr (main_loop_f64 [] (projr create_geometry) (replicate 6 [])
       (initial_camera_f64, initial_gl_state)))) \<noteq> fmul (Finite 6) camera_rotation_speed_f64 \<and>
   rot_x_f64 (fst (projr (main_loop_f64 [] (projr create_geometry) (replicate 6 [])
       (initial_camera_f64, initial_gl_state)))) \<noteq> Finite (6 * 0.02)"
proof -
  have quiet: "\<forall>events \<in> set (replicate 6 ([]::event list)). \<forall>e \<in> set events. no_press_no_quit e"
    by simp
  from main_loop_f64_at_rest[OF quiet initial_camera_f64_at_rest(1,2,3,4,6),
      of "[]" "projr create_geometry" initial_gl_state]
  obtain cam g' where
    run: "main_loop_f64 [] (projr create_geometry) (replicate 6 [])
      (initial_camera_f64, initial_gl_state) = Inr (cam, g')" and
    rx: "rot_x_f64 cam = ((\<lambda>x. fadd x camera_rotation_speed_f64) ^^ 6) (Finite 0)"
    unfolding initial_camera_f64_at_rest(5) by auto
  have x: "rot_x_f64 (fst (projr (main_loop_f64 [] (projr create_geometry) (replicate 6 [])
       (initial_camera_f64, initial_gl_state)))) = Finite (8646911284551353 / 2 ^ 56)"
    unfolding run using rx by (simp add: speed_sum_six)
  have p: "fmul (Finite 6) camera_rotation_speed_f64 = Finite (8646911284551352 / 2 ^ 56)"
    by (simp add: six_times_speed)
  show ?thesis
    unfolding x p by simp
qed

end
